theory Spec2Isabelle
  imports Main "HOL-Library.Sublist"
begin

section \<open>Paths: the POSIX flavour of \<^verbatim>\<open>node:path\<close>\<close>

text \<open>
  \<^verbatim>\<open>config-loader.js\<close> calls \<^verbatim>\<open>path.resolve\<close>, \<^verbatim>\<open>path.dirname\<close>,
  \<^verbatim>\<open>path.relative\<close> and \<^verbatim>\<open>path.posix.join\<close>. They belong to Node, not to this
  repository; they are modelled here on a POSIX host, where a path is a string cut into
  segments at every \<^verbatim>\<open>/\<close>.
\<close>

fun split_slash :: "string \<Rightarrow> string list" where
  "split_slash [] = [[]]"
| "split_slash (c # cs) =
     (if c = CHR ''/'' then [] # split_slash cs
      else (case split_slash cs of
              [] \<Rightarrow> [[c]]
            | seg # segs \<Rightarrow> (c # seg) # segs))"

fun join_slash :: "string list \<Rightarrow> string" where
  "join_slash [] = []"
| "join_slash [s] = s"
| "join_slash (s # t # ss) = s @ CHR ''/'' # join_slash (t # ss)"

text \<open>
  Node's \<^verbatim>\<open>normalizeString(path, allowAboveRoot)\<close>, segment by segment: an empty
  segment and \<^verbatim>\<open>.\<close> are dropped; \<^verbatim>\<open>..\<close> removes the last kept segment unless
  there is none or it is \<^verbatim>\<open>..\<close> itself, in which case it is kept only when
  \<open>allowAboveRoot\<close>; any other segment is kept. The kept segments are held in reverse.
\<close>

fun normalizeSegments :: "bool \<Rightarrow> string list \<Rightarrow> string list \<Rightarrow> string list" where
  "normalizeSegments allowAboveRoot res [] = rev res"
| "normalizeSegments allowAboveRoot res (seg # segs) =
     (if seg = [] \<or> seg = ''.'' then normalizeSegments allowAboveRoot res segs
      else if seg = ''..'' then
        (case res of
           r # rs \<Rightarrow>
             (if r \<noteq> ''..'' then normalizeSegments allowAboveRoot rs segs
              else if allowAboveRoot then normalizeSegments allowAboveRoot (''..'' # res) segs
              else normalizeSegments allowAboveRoot res segs)
         | [] \<Rightarrow>
             (if allowAboveRoot then normalizeSegments allowAboveRoot [''..''] segs
              else normalizeSegments allowAboveRoot res segs))
      else normalizeSegments allowAboveRoot (seg # res) segs)"

definition normalizeString :: "string \<Rightarrow> bool \<Rightarrow> string" where
  "normalizeString path allowAboveRoot =
     join_slash (normalizeSegments allowAboveRoot [] (split_slash path))"

definition isAbsolute :: "string \<Rightarrow> bool" where
  "isAbsolute path = (path \<noteq> [] \<and> hd path = CHR ''/'')"

text \<open>\<^verbatim>\<open>path.posix.normalize\<close>.\<close>

definition posix_normalize :: "string \<Rightarrow> string" where
  "posix_normalize path =
     (if path = [] then ''.''
      else
        let trailingSeparator = (last path = CHR ''/'');
            p = normalizeString path (\<not> isAbsolute path)
        in if p = [] then
             (if isAbsolute path then ''/'' else if trailingSeparator then ''./'' else ''.'')
           else
             (if isAbsolute path then ''/'' else []) @ p @
             (if trailingSeparator then ''/'' else []))"

text \<open>
  \<^verbatim>\<open>path.posix.join(...args)\<close>: the non-empty arguments are glued with \<^verbatim>\<open>/\<close> and
  the result is normalized; with nothing to glue the result is \<^verbatim>\<open>.\<close>.
\<close>

definition posix_join :: "string list \<Rightarrow> string" where
  "posix_join args =
     (case filter (\<lambda>a. a \<noteq> []) args of
        [] \<Rightarrow> ''.''
      | joined \<Rightarrow> posix_normalize (join_slash joined))"

text \<open>
  \<^verbatim>\<open>path.resolve(...args)\<close>: the arguments are taken from the right until an absolute
  one has been prepended; when none is absolute, \<^verbatim>\<open>process.cwd()\<close> (here \<open>pcwd\<close>) is
  prepended last. Empty arguments are skipped. \<open>resolveArgs\<close> returns the glued path
  and whether an absolute argument was met.
\<close>

fun resolveArgs :: "string list \<Rightarrow> string \<Rightarrow> string \<times> bool" where
  "resolveArgs [] resolvedPath = (resolvedPath, False)"
| "resolveArgs (path # more) resolvedPath =
     (if path = [] then resolveArgs more resolvedPath
      else if isAbsolute path then (path @ CHR ''/'' # resolvedPath, True)
      else resolveArgs more (path @ CHR ''/'' # resolvedPath))"

definition resolveGlued :: "string \<Rightarrow> string list \<Rightarrow> string \<times> bool" where
  "resolveGlued pcwd args =
     (case resolveArgs (rev args) [] of
        (resolvedPath, True) \<Rightarrow> (resolvedPath, True)
      | (resolvedPath, False) \<Rightarrow>
          (if pcwd = [] then (resolvedPath, False)
           else (pcwd @ CHR ''/'' # resolvedPath, isAbsolute pcwd)))"

definition resolvedSegments :: "string \<Rightarrow> string list \<Rightarrow> string list" where
  "resolvedSegments pcwd args =
     (case resolveGlued pcwd args of
        (resolvedPath, resolvedAbsolute) \<Rightarrow>
          normalizeSegments (\<not> resolvedAbsolute) [] (split_slash resolvedPath))"

definition absoluteOfSegments :: "string list \<Rightarrow> string" where
  "absoluteOfSegments segs = CHR ''/'' # join_slash segs"

definition path_resolve :: "string \<Rightarrow> string list \<Rightarrow> string" where
  "path_resolve pcwd args =
     (if snd (resolveGlued pcwd args) then absoluteOfSegments (resolvedSegments pcwd args)
      else if resolvedSegments pcwd args = [] then ''.''
      else join_slash (resolvedSegments pcwd args))"

text \<open>
  \<^verbatim>\<open>path.dirname\<close>: the path up to its last \<^verbatim>\<open>/\<close> that is followed by a non-slash
  character, trailing slashes not counted; \<^verbatim>\<open>/\<close> or \<^verbatim>\<open>.\<close> when there is no such
  slash, and \<^verbatim>\<open>//\<close> for a path that starts with two slashes and has nothing below.
  \<open>dirnameEnd\<close> scans the characters after the first from the right, as Node's loop
  does: \<open>matchedSlash\<close> is true until a non-slash character has been seen.
\<close>

fun dirnameEnd :: "string \<Rightarrow> bool \<Rightarrow> nat option" where
  "dirnameEnd [] matchedSlash = None"
| "dirnameEnd (c # rest) matchedSlash =
     (if c = CHR ''/'' then
        (if \<not> matchedSlash then Some (Suc (length rest)) else dirnameEnd rest matchedSlash)
      else dirnameEnd rest False)"

definition path_dirname :: "string \<Rightarrow> string" where
  "path_dirname path =
     (if path = [] then ''.''
      else
        (case dirnameEnd (rev (tl path)) True of
           None \<Rightarrow> (if isAbsolute path then ''/'' else ''.'')
         | Some e \<Rightarrow> (if isAbsolute path \<and> e = 1 then ''//'' else take e path)))"

text \<open>
  \<^verbatim>\<open>path.relative(from, to)\<close>: empty when the two are equal, as given or once
  resolved; otherwise one \<^verbatim>\<open>..\<close> for every segment of the resolved \<open>from\<close> below the
  common ancestor, followed by the segments of the resolved \<open>to\<close> below it.
\<close>

fun dropCommon :: "string list \<Rightarrow> string list \<Rightarrow> string list \<times> string list" where
  "dropCommon (x # xs) (y # ys) = (if x = y then dropCommon xs ys else (x # xs, y # ys))"
| "dropCommon xs ys = (xs, ys)"

definition path_relative :: "string \<Rightarrow> string \<Rightarrow> string \<Rightarrow> string" where
  "path_relative pcwd from to =
     (if from = to then []
      else if path_resolve pcwd [from] = path_resolve pcwd [to] then []
      else
        (case dropCommon (resolvedSegments pcwd [from]) (resolvedSegments pcwd [to]) of
           (fromRest, toRest) \<Rightarrow>
             join_slash (replicate (length fromRest) ''..'' @ toRest)))"

section \<open>Data model\<close>

text \<open>
  A JavaScript value as far as the loader looks at it: \<^verbatim>\<open>Array.isArray\<close> tells an
  array from everything else, and the only object the loader builds itself is the literal
  \<^verbatim>\<open>{ ignores: relativeIgnorePatterns }\<close>. Any other value is opaque.
\<close>

datatype js_value =
    Opaque nat
  | IgnoresLiteral "string list"
  | Array "js_value list"

text \<open>
  The thrown errors. \<open>InvalidArgument\<close> is
  \<^verbatim>\<open>Error("'filePath' must be a non-empty string")\<close>, \<open>ConfigFileMissing\<close> is the error
  with \<^verbatim>\<open>messageTemplate = "config-file-missing"\<close>, \<open>NotFound dirPath\<close> is
  \<^verbatim>\<open>Error(`Could not find config file for ${dirPath}`)\<close>, and \<open>Passthrough\<close> is whatever
  \<^verbatim>\<open>fs.stat\<close>, \<^verbatim>\<open>import()\<close> or \<^verbatim>\<open>normalize()\<close> threw.
\<close>

datatype error =
    InvalidArgument
  | ConfigFileMissing
  | NotFound string
  | Passthrough string

text \<open>\<^verbatim>\<open>ConfigLoaderOptions.configFilePath\<close>: \<^verbatim>\<open>string|false|undefined\<close>.\<close>

datatype config_file_option =
    OverridePath string
  | Disabled
  | Unset

text \<open>
  \<^verbatim>\<open>ConfigLoaderOptions\<close>. \<open>None\<close> is \<^verbatim>\<open>undefined\<close>. The field \<open>overrideConfigFilePath\<close>
  is the option \<^verbatim>\<open>configFilePath\<close>, under the name the loader destructures it to.
\<close>

record options =
  overrideConfigFilePath :: config_file_option
  cwd :: string
  ignoreEnabled :: bool
  baseConfig :: "js_value list option"
  defaultConfigs :: "js_value list option"
  ignorePatterns :: "string list option"
  overrideConfig :: "js_value option"

text \<open>The \<^verbatim>\<open>{configFilePath, basePath}\<close> objects of the location cache.\<close>

record location =
  configFilePath :: "string option"
  basePath :: string

text \<open>
  Modelled from the spec: the class \<^verbatim>\<open>FlatConfigArray\<close> of
  \<^verbatim>\<open>../config/flat-config-array\<close> is not among the sources. The spec (section 6) has
  it as a collaborator that "accepts a push of one-or-many configuration layers (in order)
  and an asynchronous finalize operation", treated as opaque. An instance is its identity
  (every \<^verbatim>\<open>new\<close> makes a distinct object), the two constructor options, the elements
  in order and whether it has been normalized.
\<close>

record flat_config_array =
  identity :: nat
  array_basePath :: string
  shouldIgnore :: bool
  elements :: "js_value list"
  normalized :: bool

text \<open>
  Modelled from the spec: \<^verbatim>\<open>configs.push(...)\<close> appends the given layers at the end, in
  order (spec, section 6).
\<close>

definition push :: "flat_config_array \<Rightarrow> js_value list \<Rightarrow> flat_config_array" where
  "push configs items = configs\<lparr>elements := elements configs @ items\<rparr>"

text \<open>
  What the process does to Node's module machinery, in order: deleting an entry of
  \<^verbatim>\<open>require.cache\<close> and importing a file URL that carries the \<^verbatim>\<open>mtime\<close> query.
\<close>

datatype effect =
    RequireCacheDelete string
  | Import string int

text \<open>
  The state of the process outside any loader: \<^verbatim>\<open>process.cwd()\<close>, the module-level
  map \<^verbatim>\<open>importedConfigFileModificationTime\<close>, the effects so far, and the number of
  \<^verbatim>\<open>FlatConfigArray\<close> objects constructed so far, from which a new object takes its
  identity.
\<close>

record process =
  process_cwd :: string
  importedConfigFileModificationTime :: "string \<rightharpoonup> int"
  effects :: "effect list"
  constructed :: nat

text \<open>
  The methods of the loader are asynchronous. A call is modelled as running from start to
  end in one world, with no other call on the same instance in between: the properties
  below are about calls made one after the other.

  What lies outside the process at the time of one call: which paths are files (for
  \<^verbatim>\<open>find-up\<close>), what \<^verbatim>\<open>fs.stat(filePath).mtime.getTime()\<close> gives or throws, what
  \<^verbatim>\<open>(await import(fileURL)).default\<close> gives or throws for a file and the \<^verbatim>\<open>mtime\<close>
  of its URL, and what the normalization collaborator makes of an array (spec, section 6:
  it "resolves composition/extension and validates schema").
\<close>

record world =
  isFile :: "string \<Rightarrow> bool"
  stat_mtime :: "string \<Rightarrow> error + int"
  import_default :: "string \<Rightarrow> int \<Rightarrow> error + js_value"
  normalize_outcome :: "flat_config_array \<Rightarrow> error + js_value list"

text \<open>
  Modelled from the spec: \<^verbatim>\<open>new FlatConfigArray(configs, { basePath, shouldIgnore })\<close>
  seeds the sequence with \<open>configs\<close> (spec 4.3, step 1), and \<^verbatim>\<open>normalize()\<close> finalizes
  the same object in place or throws (spec 4.3, step 6).
\<close>

definition new_FlatConfigArray ::
  "js_value list \<Rightarrow> string \<Rightarrow> bool \<Rightarrow> 'a process_scheme \<Rightarrow> flat_config_array \<times> 'a process_scheme" where
  "new_FlatConfigArray configs bp si s =
     (\<lparr>identity = constructed s, array_basePath = bp, shouldIgnore = si,
       elements = configs, normalized = False\<rparr>,
      s\<lparr>constructed := Suc (constructed s)\<rparr>)"

definition normalize_array :: "world \<Rightarrow> flat_config_array \<Rightarrow> error + flat_config_array" where
  "normalize_array w configs =
     (case normalize_outcome w configs of
        Inl e \<Rightarrow> Inl e
      | Inr items \<Rightarrow> Inr (configs\<lparr>elements := items, normalized := True\<rparr>))"

section \<open>Helpers of \<^verbatim>\<open>config-loader.js\<close>\<close>

definition FLAT_CONFIG_FILENAMES :: "string list" where
  "FLAT_CONFIG_FILENAMES = [''eslint.config.js'', ''eslint.config.mjs'', ''eslint.config.cjs'']"

text \<open>
  \<^verbatim>\<open>findUp(names, { cwd })\<close> of the package \<^verbatim>\<open>find-up\<close>: starting at the resolved
  \<open>cwd\<close>, each directory is asked for the first of \<open>names\<close> that is a file in it; the
  first directory that has one answers with the resolved path of that file; otherwise the
  walk goes on in \<^verbatim>\<open>path.dirname(directory)\<close> and ends without a result after the root.
  The resolved start is absolute (\<^verbatim>\<open>process.cwd()\<close> is), so that
  \<^verbatim>\<open>path.dirname\<close> drops its last segment: the walk is over the segments, held in
  reverse.
\<close>

definition locatePath :: "world \<Rightarrow> string \<Rightarrow> string list \<Rightarrow> string \<Rightarrow> string option" where
  "locatePath w pcwd names directory =
     find (\<lambda>name. isFile w (path_resolve pcwd [directory, name])) names"

fun findUp_walk :: "world \<Rightarrow> string \<Rightarrow> string list \<Rightarrow> string list \<Rightarrow> string option" where
  "findUp_walk w pcwd names [] =
     (case locatePath w pcwd names (absoluteOfSegments []) of
        Some foundPath \<Rightarrow> Some (path_resolve pcwd [absoluteOfSegments [], foundPath])
      | None \<Rightarrow> None)"
| "findUp_walk w pcwd names (seg # up) =
     (case locatePath w pcwd names (absoluteOfSegments (rev (seg # up))) of
        Some foundPath \<Rightarrow> Some (path_resolve pcwd [absoluteOfSegments (rev (seg # up)), foundPath])
      | None \<Rightarrow> findUp_walk w pcwd names up)"

definition findUp :: "world \<Rightarrow> string \<Rightarrow> string list \<Rightarrow> string \<Rightarrow> string option" where
  "findUp w pcwd names start = findUp_walk w pcwd names (rev (resolvedSegments pcwd [start]))"

text \<open>\<^verbatim>\<open>assertValidFilePath\<close>, on an argument that is a string.\<close>

definition assertValidFilePath :: "string \<Rightarrow> error + unit" where
  "assertValidFilePath filePath = (if filePath = [] then Inl InvalidArgument else Inr ())"

text \<open>\<^verbatim>\<open>loadConfigFile\<close> (lines 66 to 110).\<close>

definition loadConfigFile ::
  "world \<Rightarrow> string \<Rightarrow> 'a process_scheme \<Rightarrow> (error + js_value) \<times> 'a process_scheme" where
  "loadConfigFile w filePath s =
     (case stat_mtime w filePath of
        Inl e \<Rightarrow> (Inl e, s)
      | Inr mtime \<Rightarrow>
          let s1 = (if importedConfigFileModificationTime s filePath \<noteq> Some mtime
                    then s\<lparr>effects := effects s @ [RequireCacheDelete filePath]\<rparr>
                    else s);
              s2 = s1\<lparr>effects := effects s1 @ [Import filePath mtime]\<rparr>
          in (case import_default w filePath mtime of
                Inl e \<Rightarrow> (Inl e, s2)
              | Inr config \<Rightarrow>
                  (Inr config,
                   s2\<lparr>importedConfigFileModificationTime :=
                        (importedConfigFileModificationTime s2)(filePath \<mapsto> mtime)\<rparr>)))"

text \<open>
  The two places where a value is pushed whole or spread
  (\<^verbatim>\<open>Array.isArray(x) ? push(...x) : push(x)\<close>, lines 140 to 144 and 187 to 191).
\<close>

definition spreadIfArray :: "js_value \<Rightarrow> js_value list" where
  "spreadIfArray v = (case v of Array items \<Rightarrow> items | _ \<Rightarrow> [v])"

text \<open>The callback of \<^verbatim>\<open>ignorePatterns.map\<close> (lines 168 to 174).\<close>

definition relativeIgnorePattern :: "string \<Rightarrow> string \<Rightarrow> string" where
  "relativeIgnorePattern relativeIgnorePath pattern =
     (let negated = (pattern \<noteq> [] \<and> hd pattern = CHR ''!'');
          basePattern = (if negated then tl pattern else pattern)
      in (if negated then ''!'' else []) @ posix_join [relativeIgnorePath, basePattern])"

text \<open>Lines 162 to 175: the patterns as they go into the layer.\<close>

definition relativeIgnorePatterns :: "string \<Rightarrow> string \<Rightarrow> string \<Rightarrow> string list \<Rightarrow> string list" where
  "relativeIgnorePatterns pcwd bp cwd' patterns =
     (if bp = cwd' then patterns
      else map (relativeIgnorePattern (path_relative pcwd bp cwd')) patterns)"

text \<open>
  \<^verbatim>\<open>calculateConfigArray\<close> (lines 119 to 197) in two parts: everything up to the last
  \<^verbatim>\<open>push\<close> (line 192), and the whole function, which normalizes what the first part
  built. \<open>None\<close> and the empty string are the falsy values of \<open>cfp\<close>.
\<close>

definition calculateConfigArray_pushed ::
  "world \<Rightarrow> string option \<Rightarrow> string \<Rightarrow> options \<Rightarrow> 'a process_scheme \<Rightarrow>
   (error + flat_config_array) \<times> 'a process_scheme" where
  "calculateConfigArray_pushed w cfp bp opts s =
     (case new_FlatConfigArray (case baseConfig opts of None \<Rightarrow> [] | Some b \<Rightarrow> b)
             bp (ignoreEnabled opts) s of
        (configs, s1) \<Rightarrow>
          (case (case cfp of
                   None \<Rightarrow> (Inr configs, s1)
                 | Some filePath \<Rightarrow>
                     (if filePath = [] then (Inr configs, s1)
                      else
                        (case loadConfigFile w filePath s1 of
                           (Inl e, s2) \<Rightarrow> (Inl e, s2)
                         | (Inr fileConfig, s2) \<Rightarrow>
                             (Inr (push configs (spreadIfArray fileConfig)), s2)))) of
             (Inl e, s2) \<Rightarrow> (Inl e, s2)
           | (Inr configs1, s2) \<Rightarrow>
               let configs2 = push configs1
                     (case defaultConfigs opts of None \<Rightarrow> [] | Some d \<Rightarrow> d);
                   configs3 =
                     (case ignorePatterns opts of
                        None \<Rightarrow> configs2
                      | Some patterns \<Rightarrow>
                          (if length patterns > 0 then
                             push configs2
                               [IgnoresLiteral
                                 (relativeIgnorePatterns (process_cwd s2) bp (cwd opts) patterns)]
                           else configs2));
                   configs4 =
                     (case overrideConfig opts of
                        None \<Rightarrow> configs3
                      | Some oc \<Rightarrow> push configs3 (spreadIfArray oc))
               in (Inr configs4, s2)))"

definition calculateConfigArray ::
  "world \<Rightarrow> string option \<Rightarrow> string \<Rightarrow> options \<Rightarrow> 'a process_scheme \<Rightarrow>
   (error + flat_config_array) \<times> 'a process_scheme" where
  "calculateConfigArray w cfp bp opts s =
     (case calculateConfigArray_pushed w cfp bp opts s of
        (Inl e, s1) \<Rightarrow> (Inl e, s1)
      | (Inr configs, s1) \<Rightarrow> (normalize_array w configs, s1))"

section \<open>\<^verbatim>\<open>ConfigLoader\<close>\<close>

text \<open>
  One \<^verbatim>\<open>ConfigLoader\<close> instance in its process: the private maps \<^verbatim>\<open>#configArrays\<close>
  (keyed by the config file path, which may be \<^verbatim>\<open>undefined\<close>) and
  \<^verbatim>\<open>#configFilePaths\<close> (keyed by the absolute directory). \<^verbatim>\<open>#options\<close> never
  changes and is passed along as \<open>opts\<close>.
\<close>

record loader = process +
  configArrays :: "string option \<rightharpoonup> flat_config_array"
  configFilePaths :: "string \<rightharpoonup> location"

text \<open>
  Lines 252 to 279, which lines 483 to 510 of \<^verbatim>\<open>LegacyConfigLoader\<close> repeat word for
  word: where the config file is, once the cache has been missed. The test
  \<^verbatim>\<open>!configFilePath\<close> of line 271 holds for \<^verbatim>\<open>undefined\<close> and for the empty string.
\<close>

definition determineConfigFile :: "options \<Rightarrow> world \<Rightarrow> string \<Rightarrow> string \<Rightarrow> error + location" where
  "determineConfigFile opts w pcwd fromDirectory =
     (case overrideConfigFilePath opts of
        OverridePath p \<Rightarrow>
          Inr \<lparr>configFilePath = Some (path_resolve pcwd [cwd opts, p]), basePath = cwd opts\<rparr>
      | Disabled \<Rightarrow> Inr \<lparr>configFilePath = None, basePath = cwd opts\<rparr>
      | Unset \<Rightarrow>
          (case findUp w pcwd FLAT_CONFIG_FILENAMES fromDirectory of
             None \<Rightarrow> Inl ConfigFileMissing
           | Some found \<Rightarrow>
               (if found = [] then Inl ConfigFileMissing
                else Inr \<lparr>configFilePath = Some found,
                          basePath = path_resolve pcwd [cwd opts, path_dirname found]\<rparr>)))"

text \<open>\<^verbatim>\<open>ConfigLoader.#locateConfigFileToUse\<close> (lines 245 to 289).\<close>

definition locateConfigFileToUse ::
  "options \<Rightarrow> world \<Rightarrow> string \<Rightarrow> 'a loader_scheme \<Rightarrow> (error + location) \<times> 'a loader_scheme" where
  "locateConfigFileToUse opts w fromDirectory s =
     (case configFilePaths s fromDirectory of
        Some cached \<Rightarrow> (Inr cached, s)
      | None \<Rightarrow>
          (case determineConfigFile opts w (process_cwd s) fromDirectory of
             Inl e \<Rightarrow> (Inl e, s)
           | Inr loc \<Rightarrow>
               (Inr loc, s\<lparr>configFilePaths := (configFilePaths s)(fromDirectory \<mapsto> loc)\<rparr>)))"

text \<open>\<^verbatim>\<open>ConfigLoader.#calculateConfigArray\<close> (lines 297 to 310).\<close>

definition ConfigLoader_calculateConfigArray ::
  "options \<Rightarrow> world \<Rightarrow> string option \<Rightarrow> string \<Rightarrow> 'a loader_scheme \<Rightarrow>
   (error + flat_config_array) \<times> 'a loader_scheme" where
  "ConfigLoader_calculateConfigArray opts w cfp bp s =
     (case configArrays s cfp of
        Some cached \<Rightarrow> (Inr cached, s)
      | None \<Rightarrow>
          (case calculateConfigArray w cfp bp opts s of
             (Inl e, s1) \<Rightarrow> (Inl e, s1)
           | (Inr configs, s1) \<Rightarrow>
               (Inr configs, s1\<lparr>configArrays := (configArrays s1)(cfp \<mapsto> configs)\<rparr>)))"

text \<open>The public methods (lines 321 to 430).\<close>

definition findConfigFileForDirectory ::
  "options \<Rightarrow> world \<Rightarrow> string \<Rightarrow> 'a loader_scheme \<Rightarrow> (error + string option) \<times> 'a loader_scheme" where
  "findConfigFileForDirectory opts w dirPath s =
     (case assertValidFilePath dirPath of
        Inl e \<Rightarrow> (Inl e, s)
      | Inr _ \<Rightarrow>
          (case locateConfigFileToUse opts w (path_resolve (process_cwd s) [cwd opts, dirPath]) s of
             (Inl e, s1) \<Rightarrow> (Inl e, s1)
           | (Inr loc, s1) \<Rightarrow> (Inr (configFilePath loc), s1)))"

definition findConfigFileForFile ::
  "options \<Rightarrow> world \<Rightarrow> string \<Rightarrow> 'a loader_scheme \<Rightarrow> (error + string option) \<times> 'a loader_scheme" where
  "findConfigFileForFile opts w filePath s =
     (case assertValidFilePath filePath of
        Inl e \<Rightarrow> (Inl e, s)
      | Inr _ \<Rightarrow> findConfigFileForDirectory opts w (path_dirname filePath) s)"

definition loadConfigArrayForDirectory ::
  "options \<Rightarrow> world \<Rightarrow> string \<Rightarrow> 'a loader_scheme \<Rightarrow>
   (error + flat_config_array) \<times> 'a loader_scheme" where
  "loadConfigArrayForDirectory opts w dirPath s =
     (case assertValidFilePath dirPath of
        Inl e \<Rightarrow> (Inl e, s)
      | Inr _ \<Rightarrow>
          (case locateConfigFileToUse opts w (path_resolve (process_cwd s) [cwd opts, dirPath]) s of
             (Inl e, s1) \<Rightarrow> (Inl e, s1)
           | (Inr loc, s1) \<Rightarrow>
               ConfigLoader_calculateConfigArray opts w (configFilePath loc) (basePath loc) s1))"

definition loadConfigArrayForFile ::
  "options \<Rightarrow> world \<Rightarrow> string \<Rightarrow> 'a loader_scheme \<Rightarrow>
   (error + flat_config_array) \<times> 'a loader_scheme" where
  "loadConfigArrayForFile opts w filePath s =
     (case assertValidFilePath filePath of
        Inl e \<Rightarrow> (Inl e, s)
      | Inr _ \<Rightarrow> loadConfigArrayForDirectory opts w (path_dirname filePath) s)"

text \<open>
  The synchronous accessors change nothing. \<open>Inr None\<close> is the \<^verbatim>\<open>undefined\<close> that
  \<^verbatim>\<open>Map.prototype.get\<close> returns for a missing key.
\<close>

definition getCachedConfigArrayForDirectory ::
  "options \<Rightarrow> string \<Rightarrow> 'a loader_scheme \<Rightarrow> error + flat_config_array option" where
  "getCachedConfigArrayForDirectory opts dirPath s =
     (case assertValidFilePath dirPath of
        Inl e \<Rightarrow> Inl e
      | Inr _ \<Rightarrow>
          (case configFilePaths s (path_resolve (process_cwd s) [cwd opts, dirPath]) of
             None \<Rightarrow> Inl (NotFound dirPath)
           | Some loc \<Rightarrow> Inr (configArrays s (configFilePath loc))))"

definition getCachedConfigArrayForFile ::
  "options \<Rightarrow> string \<Rightarrow> 'a loader_scheme \<Rightarrow> error + flat_config_array option" where
  "getCachedConfigArrayForFile opts filePath s =
     (case assertValidFilePath filePath of
        Inl e \<Rightarrow> Inl e
      | Inr _ \<Rightarrow> getCachedConfigArrayForDirectory opts (path_dirname filePath) s)"

text \<open>
  A loader instance right after \<^verbatim>\<open>new ConfigLoader(options)\<close>, in a process with the
  given state, and the calls that change it. A history is a list of calls, each with the
  world at its time, run one after the other (no call starts before the one before it has
  settled).
\<close>

definition new_ConfigLoader :: "process \<Rightarrow> loader" where
  "new_ConfigLoader p = process.extend p (loader.fields Map.empty Map.empty)"

datatype call =
    FindConfigFileForFile string
  | FindConfigFileForDirectory string
  | LoadConfigArrayForFile string
  | LoadConfigArrayForDirectory string

fun perform :: "options \<Rightarrow> world \<Rightarrow> call \<Rightarrow> loader \<Rightarrow> loader" where
  "perform opts w (FindConfigFileForFile p) s = snd (findConfigFileForFile opts w p s)"
| "perform opts w (FindConfigFileForDirectory p) s = snd (findConfigFileForDirectory opts w p s)"
| "perform opts w (LoadConfigArrayForFile p) s = snd (loadConfigArrayForFile opts w p s)"
| "perform opts w (LoadConfigArrayForDirectory p) s = snd (loadConfigArrayForDirectory opts w p s)"

fun run :: "options \<Rightarrow> (world \<times> call) list \<Rightarrow> loader \<Rightarrow> loader" where
  "run opts [] s = s"
| "run opts ((w, c) # history) s = run opts history (perform opts w c s)"

section \<open>\<^verbatim>\<open>LegacyConfigLoader\<close>\<close>

text \<open>
  The subclass adds its own private \<^verbatim>\<open>#configFilePath\<close> and \<^verbatim>\<open>#configArray\<close>, both
  \<^verbatim>\<open>undefined\<close> at first, and overrides the methods below.
\<close>

record legacy_loader = loader +
  legacy_configFilePath :: "location option"
  legacy_configArray :: "flat_config_array option"

text \<open>\<^verbatim>\<open>LegacyConfigLoader.#locateConfigFileToUse\<close> (lines 476 to 520).\<close>

definition Legacy_locateConfigFileToUse ::
  "options \<Rightarrow> world \<Rightarrow> string \<Rightarrow> 'a legacy_loader_scheme \<Rightarrow>
   (error + location) \<times> 'a legacy_loader_scheme" where
  "Legacy_locateConfigFileToUse opts w fromDirectory s =
     (case legacy_configFilePath s of
        Some cached \<Rightarrow> (Inr cached, s)
      | None \<Rightarrow>
          (case determineConfigFile opts w (process_cwd s) fromDirectory of
             Inl e \<Rightarrow> (Inl e, s)
           | Inr loc \<Rightarrow> (Inr loc, s\<lparr>legacy_configFilePath := Some loc\<rparr>)))"

text \<open>\<^verbatim>\<open>LegacyConfigLoader.#calculateConfigArray\<close> (lines 528 to 541).\<close>

definition Legacy_calculateConfigArray ::
  "options \<Rightarrow> world \<Rightarrow> string option \<Rightarrow> string \<Rightarrow> 'a legacy_loader_scheme \<Rightarrow>
   (error + flat_config_array) \<times> 'a legacy_loader_scheme" where
  "Legacy_calculateConfigArray opts w cfp bp s =
     (case legacy_configArray s of
        Some cached \<Rightarrow> (Inr cached, s)
      | None \<Rightarrow>
          (case calculateConfigArray w cfp bp opts s of
             (Inl e, s1) \<Rightarrow> (Inl e, s1)
           | (Inr configs, s1) \<Rightarrow> (Inr configs, s1\<lparr>legacy_configArray := Some configs\<rparr>)))"

definition Legacy_findConfigFileForDirectory ::
  "options \<Rightarrow> world \<Rightarrow> string \<Rightarrow> 'a legacy_loader_scheme \<Rightarrow>
   (error + string option) \<times> 'a legacy_loader_scheme" where
  "Legacy_findConfigFileForDirectory opts w dirPath s =
     (case assertValidFilePath dirPath of
        Inl e \<Rightarrow> (Inl e, s)
      | Inr _ \<Rightarrow>
          (case Legacy_locateConfigFileToUse opts w
                  (path_resolve (process_cwd s) [cwd opts, dirPath]) s of
             (Inl e, s1) \<Rightarrow> (Inl e, s1)
           | (Inr loc, s1) \<Rightarrow> (Inr (configFilePath loc), s1)))"

definition Legacy_loadConfigArrayForDirectory ::
  "options \<Rightarrow> world \<Rightarrow> string \<Rightarrow> 'a legacy_loader_scheme \<Rightarrow>
   (error + flat_config_array) \<times> 'a legacy_loader_scheme" where
  "Legacy_loadConfigArrayForDirectory opts w dirPath s =
     (case assertValidFilePath dirPath of
        Inl e \<Rightarrow> (Inl e, s)
      | Inr _ \<Rightarrow>
          (case Legacy_locateConfigFileToUse opts w
                  (path_resolve (process_cwd s) [cwd opts, dirPath]) s of
             (Inl e, s1) \<Rightarrow> (Inl e, s1)
           | (Inr loc, s1) \<Rightarrow>
               Legacy_calculateConfigArray opts w (configFilePath loc) (basePath loc) s1))"

text \<open>\<^verbatim>\<open>LegacyConfigLoader.getCachedConfigArrayForDirectory\<close> (lines 596 to 606).\<close>

definition Legacy_getCachedConfigArrayForDirectory ::
  "string \<Rightarrow> 'a legacy_loader_scheme \<Rightarrow> error + flat_config_array" where
  "Legacy_getCachedConfigArrayForDirectory dirPath s =
     (case assertValidFilePath dirPath of
        Inl e \<Rightarrow> Inl e
      | Inr _ \<Rightarrow>
          (case legacy_configArray s of
             None \<Rightarrow> Inl (NotFound dirPath)
           | Some configs \<Rightarrow> Inr configs))"

definition new_LegacyConfigLoader :: "process \<Rightarrow> legacy_loader" where
  "new_LegacyConfigLoader p = loader.extend (new_ConfigLoader p) (legacy_loader.fields None None)"

section \<open>The layer sequence in the words of the specification\<close>

text \<open>
  What section 4.3 of the specification says the builder puts into the sequence, part by
  part, to be compared with \<open>calculateConfigArray_pushed\<close>. \<open>exportedConfig\<close> is the
  value the config source file exports at the time of the call.
\<close>

definition exportedConfig :: "world \<Rightarrow> string \<Rightarrow> error + js_value" where
  "exportedConfig w filePath =
     (case stat_mtime w filePath of Inl e \<Rightarrow> Inl e | Inr mtime \<Rightarrow> import_default w filePath mtime)"

definition baseLayers :: "options \<Rightarrow> js_value list" where
  "baseLayers opts = (case baseConfig opts of None \<Rightarrow> [] | Some b \<Rightarrow> b)"

definition fileLayers :: "world \<Rightarrow> string option \<Rightarrow> error + js_value list" where
  "fileLayers w sourcePath =
     (case sourcePath of
        None \<Rightarrow> Inr []
      | Some p \<Rightarrow>
          (case exportedConfig w p of
             Inl e \<Rightarrow> Inl e
           | Inr (Array items) \<Rightarrow> Inr items
           | Inr single \<Rightarrow> Inr [single]))"

definition defaultLayers :: "options \<Rightarrow> js_value list" where
  "defaultLayers opts = (case defaultConfigs opts of None \<Rightarrow> [] | Some d \<Rightarrow> d)"

definition cliIgnoreLayers :: "string \<Rightarrow> string \<Rightarrow> options \<Rightarrow> js_value list" where
  "cliIgnoreLayers pcwd bp opts =
     (case ignorePatterns opts of
        None \<Rightarrow> []
      | Some patterns \<Rightarrow>
          (if patterns = [] then []
           else [IgnoresLiteral (relativeIgnorePatterns pcwd bp (cwd opts) patterns)]))"

definition overrideLayers :: "options \<Rightarrow> js_value list" where
  "overrideLayers opts =
     (case overrideConfig opts of
        None \<Rightarrow> []
      | Some (Array items) \<Rightarrow> items
      | Some single \<Rightarrow> [single])"

definition layerSequence :: "world \<Rightarrow> string option \<Rightarrow> string \<Rightarrow> options \<Rightarrow> nat \<Rightarrow> string \<Rightarrow> error + flat_config_array" where
  "layerSequence w sourcePath bp opts ident pcwd =
     (case fileLayers w sourcePath of
        Inl e \<Rightarrow> Inl e
      | Inr fromFile \<Rightarrow>
          Inr \<lparr>identity = ident, array_basePath = bp, shouldIgnore = ignoreEnabled opts,
               elements = baseLayers opts @ fromFile @ defaultLayers opts @
                          cliIgnoreLayers pcwd bp opts @ overrideLayers opts,
               normalized = False\<rparr>)"

text \<open>
  A pattern is negated when it starts with \<^verbatim>\<open>!\<close>. A path is plain when none of its
  segments is empty, \<^verbatim>\<open>.\<close> or \<^verbatim>\<open>..\<close>: it is relative, has no trailing slash and
  normalization leaves it alone.
\<close>

definition negatedPattern :: "string \<Rightarrow> bool" where
  "negatedPattern pattern = (case pattern of [] \<Rightarrow> False | c # _ \<Rightarrow> c = CHR ''!'')"

definition plainPath :: "string \<Rightarrow> bool" where
  "plainPath p = list_all (\<lambda>seg. seg \<noteq> [] \<and> seg \<noteq> ''.'' \<and> seg \<noteq> ''..'') (split_slash p)"

text \<open>
  A segment is plain when it is not empty, \<^verbatim>\<open>.\<close> or \<^verbatim>\<open>..\<close>. A pattern is plain
  when it is a plain path, possibly followed by one slash. The body of a pattern is the
  pattern without its leading \<^verbatim>\<open>!\<close>, the marker is that \<^verbatim>\<open>!\<close> or nothing.
\<close>

definition plainSegment :: "string \<Rightarrow> bool" where
  "plainSegment seg = (seg \<noteq> [] \<and> seg \<noteq> ''.'' \<and> seg \<noteq> ''..'')"

definition plainPattern :: "string \<Rightarrow> bool" where
  "plainPattern body =
     (plainPath body \<or> (body \<noteq> [] \<and> last body = CHR ''/'' \<and> plainPath (butlast body)))"

definition patternBody :: "string \<Rightarrow> string" where
  "patternBody pattern = (if negatedPattern pattern then tl pattern else pattern)"

definition patternMarker :: "string \<Rightarrow> string" where
  "patternMarker pattern = (if negatedPattern pattern then ''!'' else [])"

text \<open>
  The shapes normalization produces: a list of segments that starts with any number of
  \<^verbatim>\<open>..\<close> and goes on with plain segments; the same for the reversed list of kept
  segments; and a segment without a slash.
\<close>

fun upwardSegments :: "string list \<Rightarrow> bool" where
  "upwardSegments [] = True"
| "upwardSegments (seg # segs) =
     (if seg = ''..'' then upwardSegments segs else list_all plainSegment (seg # segs))"

fun keptSegments :: "string list \<Rightarrow> bool" where
  "keptSegments [] = True"
| "keptSegments (r # rs) =
     (if r = ''..'' then list_all (\<lambda>seg. seg = ''..'') rs else plainSegment r \<and> keptSegments rs)"

definition noSlash :: "string \<Rightarrow> bool" where
  "noSlash seg = (CHR ''/'' \<notin> set seg)"

section \<open>Histories of one loader instance\<close>

text \<open>
  The directory a call hands to \<^verbatim>\<open>#locateConfigFileToUse\<close> (before it is resolved
  against \<open>cwd\<close>), if the call gets that far; and whether a call, made in world \<open>w\<close>,
  is one for the absolute directory \<open>d\<close> whose location can be determined in \<open>w\<close>.
\<close>

fun directoryOf :: "call \<Rightarrow> string option" where
  "directoryOf (FindConfigFileForFile p) = (if p = [] then None else Some (path_dirname p))"
| "directoryOf (FindConfigFileForDirectory p) = (if p = [] then None else Some p)"
| "directoryOf (LoadConfigArrayForFile p) = (if p = [] then None else Some (path_dirname p))"
| "directoryOf (LoadConfigArrayForDirectory p) = (if p = [] then None else Some p)"

definition resolvesLocation :: "options \<Rightarrow> string \<Rightarrow> world \<Rightarrow> call \<Rightarrow> string \<Rightarrow> bool" where
  "resolvesLocation opts pcwd w c d =
     (case directoryOf c of
        None \<Rightarrow> False
      | Some dirPath \<Rightarrow>
          path_resolve pcwd [cwd opts, dirPath] = d \<and>
          (case determineConfigFile opts w pcwd d of Inl _ \<Rightarrow> False | Inr _ \<Rightarrow> True))"

text \<open>
  The directories \<^verbatim>\<open>find-up\<close> visits from a start directory: the resolved start
  itself and every ancestor up to the root.
\<close>

fun ancestorsOf :: "string list \<Rightarrow> string list" where
  "ancestorsOf [] = [absoluteOfSegments []]"
| "ancestorsOf (seg # up) = absoluteOfSegments (rev (seg # up)) # ancestorsOf up"

definition ancestorDirectories :: "string \<Rightarrow> string \<Rightarrow> string list" where
  "ancestorDirectories pcwd start = ancestorsOf (rev (resolvedSegments pcwd [start]))"

text \<open>
  None of the candidate file names is a file in the start directory or in any of its
  ancestors.
\<close>

definition noCandidate :: "world \<Rightarrow> string \<Rightarrow> string \<Rightarrow> bool" where
  "noCandidate w pcwd start =
     (\<forall>dir \<in> set (ancestorDirectories pcwd start). \<forall>name \<in> set FLAT_CONFIG_FILENAMES.
        \<not> isFile w (path_resolve pcwd [dir, name]))"

section \<open>Concrete inputs\<close>

text \<open>
  A process whose working directory is the root; a world with the config file
  \<^verbatim>\<open>/a/eslint.config.js\<close>, which exports an array of two objects; the same file after
  an edit; the same file when it cannot be read; a world where the only config file is
  elsewhere and nothing can be loaded; options with the working directory
  \<^verbatim>\<open>/a/b\<close>, in the three settings of \<^verbatim>\<open>configFilePath\<close>; and options with the
  working directory \<^verbatim>\<open>/proj/sub\<close>, once with the same two ignore patterns and once
  with four patterns that are not plain.
\<close>

definition example_process :: process where
  "example_process =
     \<lparr>process_cwd = ''/'', importedConfigFileModificationTime = Map.empty, effects = [],
      constructed = 0\<rparr>"

definition world_with_config :: world where
  "world_with_config =
     \<lparr>isFile = (\<lambda>p. p = ''/a/eslint.config.js''),
      stat_mtime = (\<lambda>p. Inr 1),
      import_default = (\<lambda>p mtime. Inr (Array [Opaque 1, Opaque 2])),
      normalize_outcome = (\<lambda>configs. Inr (elements configs))\<rparr>"

definition world_config_edited :: world where
  "world_config_edited =
     \<lparr>isFile = (\<lambda>p. p = ''/a/eslint.config.js''),
      stat_mtime = (\<lambda>p. Inr 2),
      import_default = (\<lambda>p mtime. Inr (Opaque 7)),
      normalize_outcome = (\<lambda>configs. Inr (elements configs))\<rparr>"

definition world_config_unreadable :: world where
  "world_config_unreadable =
     \<lparr>isFile = (\<lambda>p. p = ''/a/eslint.config.js''),
      stat_mtime = (\<lambda>p. Inl (Passthrough ''EACCES'')),
      import_default = (\<lambda>p mtime. Inl (Passthrough ''EACCES'')),
      normalize_outcome = (\<lambda>configs. Inr (elements configs))\<rparr>"

definition world_without_config :: world where
  "world_without_config =
     \<lparr>isFile = (\<lambda>p. p = ''/x/eslint.config.js''),
      stat_mtime = (\<lambda>p. Inl (Passthrough ''ENOENT'')),
      import_default = (\<lambda>p mtime. Inl (Passthrough ''ERR_MODULE_NOT_FOUND'')),
      normalize_outcome = (\<lambda>configs. Inr (elements configs))\<rparr>"

definition example_options :: options where
  "example_options =
     \<lparr>overrideConfigFilePath = Unset, cwd = ''/a/b'', ignoreEnabled = True,
      baseConfig = Some [Opaque 0], defaultConfigs = Some [Opaque 3],
      ignorePatterns = Some [''dist/**'', ''!keep.js''], overrideConfig = Some (Opaque 9)\<rparr>"

definition override_options :: options where
  "override_options = example_options\<lparr>overrideConfigFilePath := OverridePath ''my.config.js''\<rparr>"

definition disabled_options :: options where
  "disabled_options = example_options\<lparr>overrideConfigFilePath := Disabled\<rparr>"

definition sub_options :: options where
  "sub_options = example_options\<lparr>cwd := ''/proj/sub''\<rparr>"

definition odd_options :: options where
  "odd_options = sub_options\<lparr>ignorePatterns := Some [''../up'', ''./x'', [], ''/abs'']\<rparr>"

definition example_array :: flat_config_array where
  "example_array =
     \<lparr>identity = 0, array_basePath = ''/a'', shouldIgnore = True,
      elements = [Opaque 0, Opaque 1, Opaque 2, Opaque 3,
                  IgnoresLiteral [''b/dist/**'', ''!b/keep.js''], Opaque 9],
      normalized = True\<rparr>"

section \<open>Facts about paths\<close>

lemma split_slash_nonempty: "split_slash p \<noteq> []"
  by (induction p) (auto split: list.splits)

lemma split_slash_append: "split_slash (a @ CHR ''/'' # b) = split_slash a @ split_slash b"
  by (induction a) (auto split: list.splits simp: split_slash_nonempty)

lemma join_slash_Cons: "segs \<noteq> [] \<Longrightarrow> join_slash (seg # segs) = seg @ CHR ''/'' # join_slash segs"
  by (cases segs) auto

lemma join_slash_char: "join_slash ((c # seg) # segs) = c # join_slash (seg # segs)"
  by (cases segs) auto

lemma join_split: "join_slash (split_slash p) = p"
  by (induction p) (auto split: list.splits simp: join_slash_Cons join_slash_char split_slash_nonempty)

lemma join_slash_append:
  "xs \<noteq> [] \<Longrightarrow> ys \<noteq> [] \<Longrightarrow> join_slash (xs @ ys) = join_slash xs @ CHR ''/'' # join_slash ys"
  by (induction xs rule: join_slash.induct) (auto simp: join_slash_Cons)

lemma normalizeSegments_plain:
  "list_all (\<lambda>seg. seg \<noteq> [] \<and> seg \<noteq> ''.'' \<and> seg \<noteq> ''..'') segs \<Longrightarrow>
   normalizeSegments allowAboveRoot res segs = rev res @ segs"
  by (induction segs arbitrary: res) auto

lemma split_slash_only_empty: "split_slash p = [[]] \<longleftrightarrow> p = []"
  by (cases p) (auto split: list.splits simp: split_slash_nonempty)

lemma split_slash_hd: "hd (split_slash p) \<noteq> [] \<Longrightarrow> p \<noteq> [] \<and> hd p \<noteq> CHR ''/''"
  by (cases p) auto

lemma split_slash_last: "p \<noteq> [] \<Longrightarrow> last p = CHR ''/'' \<Longrightarrow> last (split_slash p) = []"
proof (induction p)
  case Nil
  then show ?case by simp
next
  case (Cons c cs)
  show ?case
  proof (cases "cs = []")
    case True
    with Cons.prems show ?thesis by simp
  next
    case False
    with Cons have IH: "last (split_slash cs) = []" by simp
    show ?thesis
    proof (cases "c = CHR ''/''")
      case True
      with IH show ?thesis by (simp add: split_slash_nonempty)
    next
      case c: False
      obtain seg segs where sp: "split_slash cs = seg # segs"
        using split_slash_nonempty [of cs] by (cases "split_slash cs") auto
      with False split_slash_only_empty [of cs] IH have "segs \<noteq> []" by (cases segs) auto
      with sp IH c show ?thesis by simp
    qed
  qed
qed

lemma plainPath_ends: 
  assumes "plainPath p"
  shows "p \<noteq> [] \<and> hd p \<noteq> CHR ''/'' \<and> last p \<noteq> CHR ''/''"
proof -
  from assms have all: "\<forall>seg \<in> set (split_slash p). seg \<noteq> []"
    by (auto simp: plainPath_def list_all_iff)
  with split_slash_nonempty [of p] have h: "hd (split_slash p) \<noteq> []" and l: "last (split_slash p) \<noteq> []"
    by auto
  from split_slash_hd [OF h] split_slash_last [of p] l show ?thesis by auto
qed

lemma relative_example: "path_relative pcwd ''/proj'' ''/proj/sub'' = ''sub''"
  by (simp add: path_relative_def path_resolve_def resolveGlued_def resolvedSegments_def
      isAbsolute_def absoluteOfSegments_def)

lemma rebase_example:
  "relativeIgnorePatterns pcwd ''/proj'' ''/proj/sub'' [''dist/**'', ''!keep.js''] =
     [''sub/dist/**'', ''!sub/keep.js'']"
  by (simp add: relativeIgnorePatterns_def relative_example relativeIgnorePattern_def
      posix_join_def posix_normalize_def normalizeString_def isAbsolute_def Let_def)

lemma dirnameEnd_pos: "dirnameEnd cs m = Some e \<Longrightarrow> 0 < e"
  by (induction cs arbitrary: m) (auto split: if_splits)

lemma path_dirname_nonempty: "path_dirname p \<noteq> []"
  by (auto simp: path_dirname_def split: option.splits dest: dirnameEnd_pos)

lemma normalizeSegments_segments_nonempty:
  "[] \<notin> set res \<Longrightarrow> [] \<notin> set (normalizeSegments allowAboveRoot res segs)"
proof (induction segs arbitrary: res)
  case Nil
  then show ?case by simp
next
  case (Cons seg segs)
  show ?case
  proof (cases res)
    case Nil
    with Cons.IH [of "[]"] Cons.IH [of "[''..'']"] Cons.IH [of "[seg]"] show ?thesis by auto
  next
    case (Cons r rs)
    with Cons.prems Cons.IH [of res] Cons.IH [of rs] Cons.IH [of "''..'' # res"]
      Cons.IH [of "seg # res"]
    show ?thesis by auto
  qed
qed

lemma join_slash_nonempty: "segs \<noteq> [] \<Longrightarrow> hd segs \<noteq> [] \<Longrightarrow> join_slash segs \<noteq> []"
  by (cases segs rule: join_slash.cases) auto

lemma path_resolve_nonempty: "path_resolve pcwd args \<noteq> []"
proof -
  have "[] \<notin> set (resolvedSegments pcwd args)"
    by (simp add: resolvedSegments_def normalizeSegments_segments_nonempty split: prod.splits)
  then have "resolvedSegments pcwd args \<noteq> [] \<Longrightarrow> join_slash (resolvedSegments pcwd args) \<noteq> []"
    using join_slash_nonempty [of "resolvedSegments pcwd args"]
    by (cases "resolvedSegments pcwd args") auto
  then show ?thesis
    by (auto simp: path_resolve_def absoluteOfSegments_def)
qed

lemma plainSegment_fun: "plainSegment = (\<lambda>seg. seg \<noteq> [] \<and> seg \<noteq> ''.'' \<and> seg \<noteq> ''..'')"
  by (rule ext) (simp add: plainSegment_def)

lemma plainPath_iff: "plainPath p \<longleftrightarrow> list_all plainSegment (split_slash p)"
  by (simp add: plainPath_def plainSegment_fun)

lemma upward_of_dotdots: "list_all (\<lambda>seg. seg = ''..'') segs \<Longrightarrow> upwardSegments segs"
  by (induction segs) auto

lemma upward_of_plain: "list_all plainSegment segs \<Longrightarrow> upwardSegments segs"
  by (cases segs) (auto simp: plainSegment_def)

lemma upward_append_plain:
  "upwardSegments xs \<Longrightarrow> list_all plainSegment ys \<Longrightarrow> upwardSegments (xs @ ys)"
  by (induction xs) (auto simp: upward_of_plain)

lemma upward_dotdots_append:
  "list_all (\<lambda>seg. seg = ''..'') xs \<Longrightarrow> upwardSegments ys \<Longrightarrow> upwardSegments (xs @ ys)"
  by (induction xs) auto

lemma upward_replicate: "upwardSegments ys \<Longrightarrow> upwardSegments (replicate k ''..'' @ ys)"
  by (induction k) auto

lemma upward_tl: "upwardSegments (x # xs) \<Longrightarrow> upwardSegments xs"
  by (auto simp: upward_of_plain split: if_splits)

lemma kept_rev: "keptSegments res \<Longrightarrow> upwardSegments (rev res)"
proof (induction res)
  case Nil
  show ?case by simp
next
  case (Cons r rs)
  show ?case
  proof (cases "r = ''..''")
    case True
    with Cons.prems have "list_all (\<lambda>seg. seg = ''..'') (rev rs @ [r])" by (simp add: list_all_iff)
    then show ?thesis by (simp add: upward_of_dotdots)
  next
    case False
    with Cons show ?thesis by (simp add: upward_append_plain)
  qed
qed

lemma normalizeSegments_upward:
  "keptSegments res \<Longrightarrow> upwardSegments (normalizeSegments allowAboveRoot res segs)"
proof (induction segs arbitrary: res)
  case Nil
  then show ?case by (simp add: kept_rev)
next
  case (Cons seg segs)
  show ?case
  proof (cases res)
    case Nil
    with Cons.IH [of "[]"] Cons.IH [of "[''..'']"] Cons.IH [of "[seg]"] show ?thesis
      by (auto simp: plainSegment_def)
  next
    case (Cons r rs)
    with Cons.prems Cons.IH [of res] Cons.IH [of rs] Cons.IH [of "''..'' # res"]
      Cons.IH [of "seg # res"]
    show ?thesis by (auto simp: plainSegment_def split: if_splits)
  qed
qed

lemma normalizeSegments_upward_id:
  "list_all (\<lambda>seg. seg = ''..'') res \<Longrightarrow> upwardSegments segs \<Longrightarrow>
   normalizeSegments True res segs = rev res @ segs"
proof (induction segs arbitrary: res)
  case Nil
  show ?case by simp
next
  case (Cons seg segs)
  show ?case
  proof (cases "seg = ''..''")
    case True
    with Cons.prems Cons.IH [of "''..'' # res"] show ?thesis
      by (cases res) auto
  next
    case False
    with Cons.prems have "list_all (\<lambda>seg. seg \<noteq> [] \<and> seg \<noteq> ''.'' \<and> seg \<noteq> ''..'') (seg # segs)"
      by (simp add: plainSegment_fun)
    then show ?thesis by (rule normalizeSegments_plain)
  qed
qed

lemma normalizeSegments_trailing:
  "normalizeSegments allowAboveRoot res (segs @ [[]]) = normalizeSegments allowAboveRoot res segs"
  by (induction segs arbitrary: res) (auto split: list.splits)

lemma split_slash_noSlash: "list_all noSlash (split_slash p)"
  by (induction p) (auto simp: noSlash_def split: list.splits)

lemma split_slash_single: "noSlash seg \<Longrightarrow> split_slash seg = [seg]"
  by (induction seg) (auto simp: noSlash_def)

lemma split_join:
  "segs \<noteq> [] \<Longrightarrow> list_all noSlash segs \<Longrightarrow> split_slash (join_slash segs) = segs"
proof (induction segs rule: join_slash.induct)
  case 1
  then show ?case by simp
next
  case (2 s)
  then show ?case by (simp add: split_slash_single)
next
  case (3 s t ss)
  then show ?case by (simp add: split_slash_append split_slash_single)
qed

lemma normalizeSegments_noSlash:
  "list_all noSlash res \<Longrightarrow> list_all noSlash segs \<Longrightarrow>
   list_all noSlash (normalizeSegments allowAboveRoot res segs)"
proof (induction segs arbitrary: res)
  case Nil
  then show ?case by (simp add: list_all_iff)
next
  case (Cons seg segs)
  have dd: "noSlash ''..''" by (simp add: noSlash_def)
  show ?case
  proof (cases res)
    case Nil
    with Cons.prems dd Cons.IH [of "[]"] Cons.IH [of "[''..'']"] Cons.IH [of "[seg]"] show ?thesis
      by auto
  next
    case (Cons r rs)
    with Cons.prems dd Cons.IH [of res] Cons.IH [of rs] Cons.IH [of "''..'' # res"]
      Cons.IH [of "seg # res"]
    show ?thesis by auto
  qed
qed

lemma resolvedSegments_shape:
  "upwardSegments (resolvedSegments pcwd args) \<and> list_all noSlash (resolvedSegments pcwd args)"
  by (simp add: resolvedSegments_def normalizeSegments_upward normalizeSegments_noSlash
      split_slash_noSlash split: prod.splits)

lemma dropCommon_shape:
  "upwardSegments ys \<Longrightarrow> list_all noSlash ys \<Longrightarrow>
   upwardSegments (snd (dropCommon xs ys)) \<and> list_all noSlash (snd (dropCommon xs ys))"
proof (induction xs ys rule: dropCommon.induct)
  case (1 x xs y ys)
  from "1.prems" upward_tl [of y ys] have "upwardSegments ys" "list_all noSlash ys"
    by simp_all
  with 1 show ?case by auto
qed simp_all

lemma path_relative_shape:
  "path_relative pcwd from to = [] \<or> upwardSegments (split_slash (path_relative pcwd from to))"
proof -
  let ?rest = "snd (dropCommon (resolvedSegments pcwd [from]) (resolvedSegments pcwd [to]))"
  let ?k = "length (fst (dropCommon (resolvedSegments pcwd [from]) (resolvedSegments pcwd [to])))"
  let ?segs = "replicate ?k ''..'' @ ?rest"
  have rest: "upwardSegments ?rest" "list_all noSlash ?rest"
    using dropCommon_shape [OF resolvedSegments_shape [THEN conjunct1] resolvedSegments_shape [THEN conjunct2]]
    by blast+
  have up: "upwardSegments ?segs" using rest by (simp add: upward_replicate)
  have "list_all noSlash (replicate ?k ''..'')" by (simp add: list_all_iff noSlash_def)
  with rest have ns: "list_all noSlash ?segs" by simp
  have "join_slash ?segs = [] \<or> upwardSegments (split_slash (join_slash ?segs))"
  proof (cases "?segs = []")
    case True
    then show ?thesis by simp
  next
    case False
    from split_join [OF False ns] up show ?thesis by simp
  qed
  then show ?thesis
    by (auto simp: path_relative_def split: prod.splits)
qed

lemma plainPattern_cases:
  assumes "plainPattern body"
  obtains p tail where "plainPath p" and "tail = [] \<or> tail = ''/''" and "body = p @ tail"
proof (cases "plainPath body")
  case True
  then show ?thesis using that [of body "[]"] by simp
next
  case False
  with assms have "body \<noteq> []" "last body = CHR ''/''" "plainPath (butlast body)"
    by (auto simp: plainPattern_def)
  moreover then have "body = butlast body @ ''/''" by (metis append_butlast_last_id)
  ultimately show ?thesis using that [of "butlast body" "''/''"] by simp
qed

lemma upward_head: "upwardSegments (split_slash p) \<Longrightarrow> hd (split_slash p) \<noteq> []"
  using split_slash_nonempty [of p]
  by (cases "split_slash p") (auto simp: plainSegment_def split: if_splits)

lemma upward_last: "upwardSegments segs \<Longrightarrow> segs \<noteq> [] \<Longrightarrow> last segs \<noteq> []"
proof (induction segs)
  case Nil
  then show ?case by simp
next
  case (Cons seg segs)
  show ?case
  proof (cases "seg = ''..''")
    case True
    with Cons show ?thesis by (cases segs) auto
  next
    case False
    with Cons.prems have "list_all plainSegment (seg # segs)" by simp
    then have "plainSegment (last (seg # segs))"
      by (metis last_in_set list.distinct(1) list_all_iff)
    then show ?thesis by (simp add: plainSegment_def)
  qed
qed

lemma posix_normalize_literal:
  assumes shape: "upwardSegments (split_slash path)" 
    and tail: "tail = [] \<or> tail = ''/''"
  shows "posix_normalize (path @ tail) = path @ tail"
proof -
  from split_slash_hd [OF upward_head [OF shape]] have ne: "path \<noteq> []" and hd: "hd path \<noteq> CHR ''/''"
    by simp_all
  then have abs: "\<not> isAbsolute (path @ tail)" by (cases path) (auto simp: isAbsolute_def)
  have segs: "normalizeSegments True [] (split_slash (path @ tail)) = split_slash path"
  proof (cases "tail = []")
    case True
    with shape show ?thesis by (simp add: normalizeSegments_upward_id)
  next
    case False
    with tail have "split_slash (path @ tail) = split_slash path @ [[]]"
      by (simp add: split_slash_append)
    with shape show ?thesis by (simp add: normalizeSegments_trailing normalizeSegments_upward_id)
  qed
  then have norm: "normalizeString (path @ tail) True = path"
    by (simp add: normalizeString_def join_split)
  from upward_last [OF shape split_slash_nonempty] split_slash_last [of path] ne
  have "last path \<noteq> CHR ''/''" by auto
  with tail ne have last: "(last (path @ tail) = CHR ''/'') = (tail = ''/'')" by auto
  from abs norm last ne tail show ?thesis
    by (auto simp: posix_normalize_def Let_def)
qed

lemma posix_join_literal:
  assumes rel: "upwardSegments (split_slash rel)" and body: "plainPattern body"
  shows "posix_join [rel, body] = rel @ ''/'' @ body"
proof -
  from body obtain p tail where p: "plainPath p" and tail: "tail = [] \<or> tail = ''/''"
    and eq: "body = p @ tail"
    by (rule plainPattern_cases)
  from split_slash_hd [OF upward_head [OF rel]] have ne: "rel \<noteq> []" by simp
  from plainPath_ends [OF p] eq have bne: "body \<noteq> []" by simp
  from rel p have "upwardSegments (split_slash (rel @ CHR ''/'' # p))"
    by (simp add: split_slash_append upward_append_plain plainPath_iff)
  from posix_normalize_literal [OF this tail] eq
  have "posix_normalize (rel @ CHR ''/'' # body) = rel @ CHR ''/'' # body" by simp
  with ne bne show ?thesis by (simp add: posix_join_def)
qed

lemma posix_join_no_relative:
  assumes body: "plainPattern body"
  shows "posix_join [[], body] = body"
proof -
  from body obtain p tail where p: "plainPath p" and tail: "tail = [] \<or> tail = ''/''"
    and eq: "body = p @ tail"
    by (rule plainPattern_cases)
  from plainPath_ends [OF p] eq have bne: "body \<noteq> []" by simp
  from p have "upwardSegments (split_slash p)" by (simp add: plainPath_iff upward_of_plain)
  from posix_normalize_literal [OF this tail] eq bne show ?thesis by (simp add: posix_join_def)
qed

lemma relativeIgnorePattern_parts:
  "relativeIgnorePattern rel pattern = patternMarker pattern @ posix_join [rel, patternBody pattern]"
  by (cases pattern)
    (simp_all add: relativeIgnorePattern_def patternMarker_def patternBody_def negatedPattern_def Let_def)

lemma rebased_plain_pattern:
  assumes "plainPattern (patternBody pattern)"
  shows "relativeIgnorePattern (path_relative pcwd bp cwd') pattern =
           patternMarker pattern @
           (if path_relative pcwd bp cwd' = [] then patternBody pattern
            else path_relative pcwd bp cwd' @ ''/'' @ patternBody pattern)"
  using path_relative_shape [of pcwd bp cwd'] assms
  by (auto simp: relativeIgnorePattern_parts posix_join_literal posix_join_no_relative)

lemma relativeIgnorePatterns_joined:
  "relativeIgnorePatterns pcwd bp cwd' patterns =
     (if bp = cwd' then patterns
      else map (\<lambda>pattern. patternMarker pattern @
                  posix_join [path_relative pcwd bp cwd', patternBody pattern]) patterns)"
  by (simp add: relativeIgnorePatterns_def relativeIgnorePattern_parts)

lemma relativeIgnorePatterns_plain:
  assumes "bp \<noteq> cwd'" and "list_all (\<lambda>pattern. plainPattern (patternBody pattern)) patterns"
  shows "relativeIgnorePatterns pcwd bp cwd' patterns =
           map (\<lambda>pattern. patternMarker pattern @
                  (if path_relative pcwd bp cwd' = [] then patternBody pattern
                   else path_relative pcwd bp cwd' @ ''/'' @ patternBody pattern)) patterns"
  using assms
  by (auto simp: relativeIgnorePatterns_def list_all_iff rebased_plain_pattern)

section \<open>Facts about the builder\<close>

lemma loadConfigFile_value: "fst (loadConfigFile w p s) = exportedConfig w p"
  by (simp add: loadConfigFile_def exportedConfig_def Let_def split: sum.splits)

lemma loadConfigFile_cwd: "process_cwd (snd (loadConfigFile w p s)) = process_cwd s"
  by (simp add: loadConfigFile_def Let_def split: sum.splits)

lemma loadConfigFile_frame:
  "loadConfigFile w p s = (r, s') \<Longrightarrow>
   process.more s' = process.more s \<and> process_cwd s' = process_cwd s \<and> constructed s' = constructed s"
  by (auto simp: loadConfigFile_def Let_def split: sum.splits if_splits)

lemma pushed_value:
  assumes "cfp \<noteq> Some []"
  shows "fst (calculateConfigArray_pushed w cfp bp opts s) =
     layerSequence w cfp bp opts (constructed s) (process_cwd s)"
proof (cases cfp)
  case None
  then show ?thesis
    by (simp add: calculateConfigArray_pushed_def layerSequence_def fileLayers_def
        new_FlatConfigArray_def push_def baseLayers_def defaultLayers_def cliIgnoreLayers_def
        overrideLayers_def spreadIfArray_def Let_def split: option.splits js_value.splits)
next
  case (Some p)
  with assms have p: "p \<noteq> []" by simp
  obtain r s2 where L: "loadConfigFile w p (s\<lparr>constructed := Suc (constructed s)\<rparr>) = (r, s2)"
    by fastforce
  have r: "r = exportedConfig w p"
    using loadConfigFile_value [of w p "s\<lparr>constructed := Suc (constructed s)\<rparr>"] L by simp
  have c: "process_cwd s2 = process_cwd s"
    using loadConfigFile_cwd [of w p "s\<lparr>constructed := Suc (constructed s)\<rparr>"] L by simp
  show ?thesis
  proof (cases r)
    case (Inl e)
    with r have "exportedConfig w p = Inl e" by simp
    with Some p L r show ?thesis
      by (simp add: calculateConfigArray_pushed_def layerSequence_def fileLayers_def
          new_FlatConfigArray_def)
  next
    case (Inr v)
    with r have "exportedConfig w p = Inr v" by simp
    with Some p L r c show ?thesis
      by (simp add: calculateConfigArray_pushed_def layerSequence_def fileLayers_def
          new_FlatConfigArray_def push_def baseLayers_def defaultLayers_def cliIgnoreLayers_def
          overrideLayers_def spreadIfArray_def Let_def split: option.splits js_value.splits)
  qed
qed

lemma pushed_frame:
  "calculateConfigArray_pushed w cfp bp opts s = (r, s') \<Longrightarrow>
   process.more s' = process.more s \<and> process_cwd s' = process_cwd s \<and> constructed s' = Suc (constructed s)"
  by (auto simp: calculateConfigArray_pushed_def new_FlatConfigArray_def Let_def
      split: sum.splits if_splits prod.splits option.splits dest!: loadConfigFile_frame)

lemma calculateConfigArray_frame:
  "calculateConfigArray w cfp bp opts s = (r, s') \<Longrightarrow>
   process.more s' = process.more s \<and> process_cwd s' = process_cwd s \<and> constructed s' = Suc (constructed s)"
  by (auto simp: calculateConfigArray_def split: sum.splits prod.splits dest!: pushed_frame)

lemma pushed_ignore_layer:
  assumes "calculateConfigArray_pushed w cfp bp opts s = (Inr configs, s')"
    and "ignorePatterns opts = Some patterns" and "patterns \<noteq> []"
  shows "suffix
           (IgnoresLiteral (relativeIgnorePatterns (process_cwd s) bp (cwd opts) patterns) #
            overrideLayers opts)
           (elements configs)"
  using assms
  by (auto simp: calculateConfigArray_pushed_def new_FlatConfigArray_def push_def Let_def
      overrideLayers_def spreadIfArray_def suffix_def
      split: if_splits prod.splits sum.splits option.splits js_value.splits
      dest!: loadConfigFile_frame)

section \<open>Facts about the loader\<close>

lemma more_configArrays:
  fixes s s' :: "'a loader_scheme"
  shows "process.more s' = process.more s \<Longrightarrow> configArrays s' = configArrays s \<and> configFilePaths s' = configFilePaths s"
  by (cases s, cases s') simp

lemma new_loader_simps:
  "process_cwd (new_ConfigLoader p) = process_cwd p"
  "configFilePaths (new_ConfigLoader p) = Map.empty"
  "configArrays (new_ConfigLoader p) = Map.empty"
  "effects (new_ConfigLoader p) = effects p"
  "constructed (new_ConfigLoader p) = constructed p"
  by (simp_all add: new_ConfigLoader_def process.defs loader.defs)

lemma locate_cached:
  "configFilePaths s d = Some loc \<Longrightarrow> locateConfigFileToUse opts w d s = (Inr loc, s)"
  by (simp add: locateConfigFileToUse_def)

lemma locate_fresh:
  "configFilePaths s d = None \<Longrightarrow>
   locateConfigFileToUse opts w d s =
     (case determineConfigFile opts w (process_cwd s) d of
        Inl e \<Rightarrow> (Inl e, s)
      | Inr loc \<Rightarrow> (Inr loc, s\<lparr>configFilePaths := (configFilePaths s)(d \<mapsto> loc)\<rparr>))"
  by (simp add: locateConfigFileToUse_def)

lemma locate_failure:
  "locateConfigFileToUse opts w d s = (Inl e, s') \<Longrightarrow>
   s' = s \<and> configFilePaths s d = None \<and> determineConfigFile opts w (process_cwd s) d = Inl e"
  by (auto simp: locateConfigFileToUse_def split: option.splits sum.splits)

lemma locate_success:
  "locateConfigFileToUse opts w d s = (Inr loc, s') \<Longrightarrow>
   configFilePaths s' = (configFilePaths s)(d \<mapsto> loc) \<and> configArrays s' = configArrays s \<and>
   process_cwd s' = process_cwd s \<and> constructed s' = constructed s \<and> effects s' = effects s \<and>
   importedConfigFileModificationTime s' = importedConfigFileModificationTime s"
  by (auto simp: locateConfigFileToUse_def split: option.splits sum.splits)

lemma locate_success_source:
  "locateConfigFileToUse opts w d s = (Inr loc, s') \<Longrightarrow>
   configFilePaths s d = Some loc \<or>
   (configFilePaths s d = None \<and> determineConfigFile opts w (process_cwd s) d = Inr loc)"
  by (auto simp: locateConfigFileToUse_def split: option.splits sum.splits)

lemma locate_locations:
  "configFilePaths (snd (locateConfigFileToUse opts w d s)) =
     (case configFilePaths s d of
        Some _ \<Rightarrow> configFilePaths s
      | None \<Rightarrow>
          (case determineConfigFile opts w (process_cwd s) d of
             Inl _ \<Rightarrow> configFilePaths s
           | Inr loc \<Rightarrow> (configFilePaths s)(d \<mapsto> loc)))"
  by (simp add: locateConfigFileToUse_def split: option.splits sum.splits)

lemma locate_cwd: "process_cwd (snd (locateConfigFileToUse opts w d s)) = process_cwd s"
  by (simp add: locateConfigFileToUse_def split: option.splits sum.splits)

lemma locate_cwd': "locateConfigFileToUse opts w d s = (r, s') \<Longrightarrow> process_cwd s' = process_cwd s"
  using locate_cwd [of opts w d s] by simp

lemma build_cached:
  "configArrays s cfp = Some a \<Longrightarrow> ConfigLoader_calculateConfigArray opts w cfp bp s = (Inr a, s)"
  by (simp add: ConfigLoader_calculateConfigArray_def)

lemma build_success:
  "ConfigLoader_calculateConfigArray opts w cfp bp s = (Inr a, s') \<Longrightarrow>
   configArrays s' cfp = Some a \<and> configFilePaths s' = configFilePaths s \<and>
   process_cwd s' = process_cwd s \<and> constructed s' \<le> Suc (constructed s)"
  by (auto simp: ConfigLoader_calculateConfigArray_def split: option.splits sum.splits prod.splits
      dest!: calculateConfigArray_frame more_configArrays)

lemma build_failure:
  "ConfigLoader_calculateConfigArray opts w cfp bp s = (Inl e, s') \<Longrightarrow>
   configArrays s' = configArrays s \<and> configFilePaths s' = configFilePaths s \<and>
   process_cwd s' = process_cwd s \<and> configArrays s cfp = None \<and>
   fst (calculateConfigArray w cfp bp opts s) = Inl e"
  by (auto simp: ConfigLoader_calculateConfigArray_def split: option.splits sum.splits prod.splits
      dest!: calculateConfigArray_frame more_configArrays)

lemma build_any:
  "ConfigLoader_calculateConfigArray opts w cfp bp s = (r, s') \<Longrightarrow>
   configFilePaths s' = configFilePaths s \<and> process_cwd s' = process_cwd s \<and>
   (\<forall>k a. configArrays s k = Some a \<longrightarrow> configArrays s' k = Some a)"
  by (auto simp: ConfigLoader_calculateConfigArray_def split: option.splits sum.splits prod.splits
      dest!: calculateConfigArray_frame more_configArrays)

lemma build_locations:
  "configFilePaths (snd (ConfigLoader_calculateConfigArray opts w cfp bp s)) = configFilePaths s"
  using build_any [OF surjective_pairing] by blast

lemma build_cwd:
  "process_cwd (snd (ConfigLoader_calculateConfigArray opts w cfp bp s)) = process_cwd s"
  using build_any [OF surjective_pairing] by blast

lemma find_via_locate:
  "D \<noteq> [] \<Longrightarrow> locateConfigFileToUse opts w (path_resolve (process_cwd s) [cwd opts, D]) s = (r, s') \<Longrightarrow>
   findConfigFileForDirectory opts w D s = (case r of Inl e \<Rightarrow> (Inl e, s') | Inr loc \<Rightarrow> (Inr (configFilePath loc), s'))"
  by (simp add: findConfigFileForDirectory_def assertValidFilePath_def split: sum.splits)

lemma load_via_locate:
  "D \<noteq> [] \<Longrightarrow> locateConfigFileToUse opts w (path_resolve (process_cwd s) [cwd opts, D]) s = (r, s') \<Longrightarrow>
   loadConfigArrayForDirectory opts w D s =
     (case r of Inl e \<Rightarrow> (Inl e, s')
      | Inr loc \<Rightarrow> ConfigLoader_calculateConfigArray opts w (configFilePath loc) (basePath loc) s')"
  by (simp add: loadConfigArrayForDirectory_def assertValidFilePath_def split: sum.splits)

lemma load_success:
  assumes "loadConfigArrayForDirectory opts w D s = (Inr a, s')"
  shows "\<exists>loc. configFilePaths s' (path_resolve (process_cwd s) [cwd opts, D]) = Some loc \<and>
           configArrays s' (configFilePath loc) = Some a \<and>
           fst (locateConfigFileToUse opts w (path_resolve (process_cwd s) [cwd opts, D]) s) = Inr loc" 
    and "process_cwd s' = process_cwd s" and "D \<noteq> []" and "constructed s' \<le> Suc (constructed s)"
  using assms
  by (auto simp: loadConfigArrayForDirectory_def assertValidFilePath_def
      split: if_splits sum.splits prod.splits dest!: locate_success build_success)

lemma find_locations:
  "D \<noteq> [] \<Longrightarrow> configFilePaths (snd (findConfigFileForDirectory opts w D s)) =
     configFilePaths (snd (locateConfigFileToUse opts w (path_resolve (process_cwd s) [cwd opts, D]) s))"
  by (simp add: findConfigFileForDirectory_def assertValidFilePath_def split: sum.splits prod.splits)

lemma load_locations:
  "D \<noteq> [] \<Longrightarrow> configFilePaths (snd (loadConfigArrayForDirectory opts w D s)) =
     configFilePaths (snd (locateConfigFileToUse opts w (path_resolve (process_cwd s) [cwd opts, D]) s))"
  by (simp add: loadConfigArrayForDirectory_def assertValidFilePath_def build_locations
      split: sum.splits prod.splits)

lemma find_unchanged: "configFilePaths (snd (findConfigFileForDirectory opts w [] s)) = configFilePaths s"
  by (simp add: findConfigFileForDirectory_def assertValidFilePath_def)

lemma load_unchanged: "configFilePaths (snd (loadConfigArrayForDirectory opts w [] s)) = configFilePaths s"
  by (simp add: loadConfigArrayForDirectory_def assertValidFilePath_def)

lemma find_cwd: "process_cwd (snd (findConfigFileForDirectory opts w D s)) = process_cwd s"
  by (auto simp: findConfigFileForDirectory_def assertValidFilePath_def
      split: sum.splits prod.splits dest: locate_cwd')

lemma load_cwd: "process_cwd (snd (loadConfigArrayForDirectory opts w D s)) = process_cwd s"
  by (auto simp: loadConfigArrayForDirectory_def assertValidFilePath_def build_cwd
      split: sum.splits prod.splits dest: locate_cwd')

lemma load_keeps_locations:
  assumes "loadConfigArrayForDirectory opts w D s = (r, s')"
    and "configFilePaths s k = Some cached"
  shows "configFilePaths s' k = Some cached"
proof (cases "D = []")
  case True
  with assms load_unchanged [of opts w s] show ?thesis by simp
next
  case False
  from load_locations [OF False, of opts w s] assms show ?thesis
    by (auto simp: locate_locations split: option.splits sum.splits)
qed

lemma determine_override:
  "overrideConfigFilePath opts = OverridePath P \<Longrightarrow>
   determineConfigFile opts w pcwd d =
     Inr \<lparr>configFilePath = Some (path_resolve pcwd [cwd opts, P]), basePath = cwd opts\<rparr>"
  by (simp add: determineConfigFile_def)

lemma determine_disabled:
  "overrideConfigFilePath opts = Disabled \<Longrightarrow>
   determineConfigFile opts w pcwd d = Inr \<lparr>configFilePath = None, basePath = cwd opts\<rparr>"
  by (simp add: determineConfigFile_def)

lemma resolved_source_nonempty:
  "determineConfigFile opts w pcwd d = Inr loc \<Longrightarrow> configFilePath loc \<noteq> Some []"
  by (auto simp: determineConfigFile_def path_resolve_nonempty
      split: config_file_option.splits option.splits if_splits)

lemma locatePath_None:
  "locatePath w pcwd names dir = None \<longleftrightarrow>
   (\<forall>name \<in> set names. \<not> isFile w (path_resolve pcwd [dir, name]))"
  by (auto simp: locatePath_def find_None_iff)

lemma findUp_walk_None:
  "findUp_walk w pcwd names up = None \<longleftrightarrow>
   (\<forall>dir \<in> set (ancestorsOf up). \<forall>name \<in> set names. \<not> isFile w (path_resolve pcwd [dir, name]))"
proof (induction up)
  case Nil
  show ?case
    using locatePath_None [of w pcwd names "absoluteOfSegments []"]
    by (cases "locatePath w pcwd names (absoluteOfSegments [])") auto
next
  case (Cons seg up)
  show ?case
    using locatePath_None [of w pcwd names "absoluteOfSegments (rev (seg # up))"] Cons.IH
    by (cases "locatePath w pcwd names (absoluteOfSegments (rev (seg # up)))") auto
qed

lemma findUp_None:
  "findUp w pcwd names start = None \<longleftrightarrow>
   (\<forall>dir \<in> set (ancestorDirectories pcwd start). \<forall>name \<in> set names.
      \<not> isFile w (path_resolve pcwd [dir, name]))"
  by (simp add: findUp_def ancestorDirectories_def findUp_walk_None)

lemma determine_missing:
  "overrideConfigFilePath opts = Unset \<Longrightarrow> noCandidate w pcwd d \<Longrightarrow>
   determineConfigFile opts w pcwd d = Inl ConfigFileMissing"
  by (simp add: determineConfigFile_def noCandidate_def findUp_None [symmetric])

section \<open>Facts about histories\<close>

lemma resolvesLocation_iff:
  "resolvesLocation opts pcwd w c d \<longleftrightarrow>
     (\<exists>dirPath loc. directoryOf c = Some dirPath \<and> path_resolve pcwd [cwd opts, dirPath] = d \<and>
        determineConfigFile opts w pcwd d = Inr loc)"
  by (auto simp: resolvesLocation_def split: option.splits sum.splits)

lemma perform_locations:
  "configFilePaths (perform opts w c s) =
     (case directoryOf c of
        None \<Rightarrow> configFilePaths s
      | Some dirPath \<Rightarrow>
          configFilePaths (snd (locateConfigFileToUse opts w
            (path_resolve (process_cwd s) [cwd opts, dirPath]) s)))"
  by (cases c)
    (simp_all add: find_locations load_locations path_dirname_nonempty find_unchanged load_unchanged
      findConfigFileForFile_def loadConfigArrayForFile_def assertValidFilePath_def)

lemma perform_cwd: "process_cwd (perform opts w c s) = process_cwd s"
  by (cases c)
    (simp_all add: find_cwd load_cwd findConfigFileForFile_def loadConfigArrayForFile_def
      split: sum.splits)

lemma run_cwd: "process_cwd (run opts history s) = process_cwd s"
  by (induction history arbitrary: s) (auto simp: perform_cwd)

lemma perform_dom:
  "dom (configFilePaths (perform opts w c s)) =
     dom (configFilePaths s) \<union> {d. resolvesLocation opts (process_cwd s) w c d}"
  by (auto simp: perform_locations locate_locations resolvesLocation_iff
      split: option.splits sum.splits if_splits)

lemma run_dom:
  "dom (configFilePaths (run opts history s)) =
     dom (configFilePaths s) \<union>
     {d. \<exists>(w, c) \<in> set history. resolvesLocation opts (process_cwd s) w c d}"
proof (induction history arbitrary: s)
  case Nil
  show ?case by simp
next
  case (Cons wc history)
  obtain w c where wc: "wc = (w, c)" by (cases wc)
  show ?case
    unfolding wc by (simp add: Cons.IH perform_dom perform_cwd) blast
qed

lemma perform_cached_origin:
  "configFilePaths (perform opts w c s) d = Some loc \<Longrightarrow>
   configFilePaths s d = Some loc \<or> determineConfigFile opts w (process_cwd s) d = Inr loc"
  by (auto simp: perform_locations locate_locations split: option.splits sum.splits if_splits)

lemma run_cached_origin:
  "configFilePaths (run opts history s) d = Some loc \<Longrightarrow>
   configFilePaths s d = Some loc \<or> (\<exists>w. determineConfigFile opts w (process_cwd s) d = Inr loc)"
proof (induction history arbitrary: s)
  case Nil
  then show ?case by simp
next
  case (Cons wc history)
  obtain w c where wc: "wc = (w, c)" by (cases wc)
  from Cons.prems have "configFilePaths (run opts history (perform opts w c s)) d = Some loc"
    by (simp add: wc)
  from Cons.IH [OF this] show ?case
    by (auto simp: perform_cwd dest: perform_cached_origin)
qed

lemma never_resolved:
  assumes "overrideConfigFilePath opts = Unset"
    and "\<forall>(w', c) \<in> set history. noCandidate w' (process_cwd p) d"
  shows "configFilePaths (run opts history (new_ConfigLoader p)) d = None"
proof -
  have "d \<notin> dom (configFilePaths (run opts history (new_ConfigLoader p)))"
    using assms
    by (auto simp: run_dom new_loader_simps resolvesLocation_iff dest: determine_missing)
  then show ?thesis by auto
qed

lemma locate_history:
  assumes "\<And>w'. determineConfigFile opts w' (process_cwd p) d = Inr loc"
  shows "fst (locateConfigFileToUse opts w d (run opts history (new_ConfigLoader p))) = Inr loc \<and>
         configFilePaths (snd (locateConfigFileToUse opts w d (run opts history (new_ConfigLoader p)))) d = Some loc"
proof -
  let ?s = "run opts history (new_ConfigLoader p)"
  have cwd: "process_cwd ?s = process_cwd p" by (simp add: run_cwd new_loader_simps)
  show ?thesis
  proof (cases "configFilePaths ?s d")
    case None
    with assms cwd show ?thesis by (simp add: locate_fresh)
  next
    case (Some cached)
    from run_cached_origin [OF Some] assms have "cached = loc"
      by (auto simp: new_loader_simps)
    with Some show ?thesis by (simp add: locate_cached)
  qed
qed

lemma pair_from_fst: "fst x = a \<Longrightarrow> x = (a, snd x)"
  by auto

section \<open>The order of the layers\<close>

lemma layerSequence_example:
  "layerSequence world_with_config (Some ''/a/eslint.config.js'') ''/a'' example_options 0 ''/'' =
     Inr (example_array\<lparr>normalized := False\<rparr>)"
  by code_simp

text \<open>
  \<^bold>\<open>C1\<close>. For all options, every base path and every source path that is absent or
  non-empty (every resolved location is: \<open>resolved_source_nonempty\<close>), what the builder
  has pushed when it reaches \<^verbatim>\<open>configs.normalize()\<close> is, in this order: the
  \<^verbatim>\<open>baseConfig\<close> layers; the layers from the config source file (the elements in order
  when it exports an array, the single value otherwise, nothing when there is no source
  path); the \<^verbatim>\<open>defaultConfigs\<close> layers; one layer with the (possibly rebased) command
  line ignore patterns when that list is not empty; the \<^verbatim>\<open>overrideConfig\<close> layers.
  When loading the file fails, the failure is the result. The builder returns what the
  normalization makes of exactly this sequence.
\<close>

theorem layer_order:
  assumes "cfp \<noteq> Some []"
  shows "fst (calculateConfigArray_pushed w cfp bp opts s) =
           layerSequence w cfp bp opts (constructed s) (process_cwd s) \<and>
         fst (calculateConfigArray w cfp bp opts s) =
           (case layerSequence w cfp bp opts (constructed s) (process_cwd s) of
              Inl e \<Rightarrow> Inl e
            | Inr configs \<Rightarrow> normalize_array w configs)"
proof -
  have "fst (calculateConfigArray w cfp bp opts s) =
          (case fst (calculateConfigArray_pushed w cfp bp opts s) of
             Inl e \<Rightarrow> Inl e
           | Inr configs \<Rightarrow> normalize_array w configs)"
    by (simp add: calculateConfigArray_def split: prod.splits sum.splits)
  with pushed_value [OF assms, of w bp opts s] show ?thesis by simp
qed

text \<open>
  The statement at \<^verbatim>\<open>/a/eslint.config.js\<close> with base path \<^verbatim>\<open>/a\<close> and working
  directory \<^verbatim>\<open>/a/b\<close>.
\<close>

theorem layer_order_witness:
  "fst (calculateConfigArray_pushed world_with_config (Some ''/a/eslint.config.js'') ''/a''
          example_options (new_ConfigLoader example_process)) =
     Inr \<lparr>identity = 0, array_basePath = ''/a'', shouldIgnore = True,
          elements = [Opaque 0, Opaque 1, Opaque 2, Opaque 3,
                      IgnoresLiteral [''b/dist/**'', ''!b/keep.js''], Opaque 9],
          normalized = False\<rparr>"
proof -
  have h: "Some ''/a/eslint.config.js'' \<noteq> Some []" by simp
  from layer_order [OF h, of world_with_config "''/a''" example_options "new_ConfigLoader example_process"]
  show ?thesis
    by (simp add: new_loader_simps example_process_def layerSequence_example example_array_def)
qed

section \<open>Rebasing the command line ignore patterns\<close>

lemma pushed_example_rebased:
  "fst (calculateConfigArray_pushed world_with_config None ''/proj'' sub_options
          (new_ConfigLoader example_process)) =
     Inr \<lparr>identity = 0, array_basePath = ''/proj'', shouldIgnore = True,
          elements = [Opaque 0, Opaque 3, IgnoresLiteral [''sub/dist/**'', ''!sub/keep.js''], Opaque 9],
          normalized = False\<rparr>"
  by code_simp

lemma pushed_example_unchanged:
  "fst (calculateConfigArray_pushed world_with_config None ''/proj/sub'' sub_options
          (new_ConfigLoader example_process)) =
     Inr \<lparr>identity = 0, array_basePath = ''/proj/sub'', shouldIgnore = True,
          elements = [Opaque 0, Opaque 3, IgnoresLiteral [''dist/**'', ''!keep.js''], Opaque 9],
          normalized = False\<rparr>"
  by code_simp

lemma sub_options_simps:
  "cwd sub_options = ''/proj/sub''"
  "ignorePatterns sub_options = Some [''dist/**'', ''!keep.js'']"
  "overrideLayers sub_options = [Opaque 9]"
  by code_simp+

lemma joined_patterns_example:
  "map (\<lambda>pattern. patternMarker pattern @
          posix_join [path_relative (process_cwd (new_ConfigLoader example_process))
                        ''/proj'' ''/proj/sub'', patternBody pattern])
      [''dist/**'', ''!keep.js''] = [''sub/dist/**'', ''!sub/keep.js'']"
  by code_simp

lemma literal_patterns_example:
  "map (\<lambda>pattern. patternMarker pattern @
          (if path_relative (process_cwd (new_ConfigLoader example_process)) ''/proj'' ''/proj/sub'' = []
           then patternBody pattern
           else path_relative (process_cwd (new_ConfigLoader example_process)) ''/proj'' ''/proj/sub'' @
                ''/'' @ patternBody pattern))
      [''dist/**'', ''!keep.js''] = [''sub/dist/**'', ''!sub/keep.js'']"
  by code_simp

lemma plain_patterns_example:
  "list_all (\<lambda>pattern. plainPattern (patternBody pattern)) [''dist/**'', ''!keep.js'']"
  by code_simp

text \<open>
  \<^bold>\<open>C2\<close>, amended. Whenever the builder gets as far as the last \<^verbatim>\<open>push\<close> with a
  non-empty list of command line ignore patterns, the sequence ends with one layer of
  ignore patterns followed by the override layers. When the base path equals \<open>cwd\<close>
  that layer holds the patterns unchanged. When it differs, every pattern has become the
  \<^verbatim>\<open>path.posix.join\<close> of the relative path from the base path to \<open>cwd\<close> and the
  pattern without its leading \<^verbatim>\<open>!\<close>, with the \<^verbatim>\<open>!\<close> put back. When every
  pattern is plain (no empty, \<^verbatim>\<open>.\<close> or \<^verbatim>\<open>..\<close> segment, a trailing slash apart)
  that is, for every base path and \<open>cwd\<close>: the relative path, a slash and the pattern,
  or the pattern itself when the relative path is empty. With base path \<^verbatim>\<open>/proj\<close> and
  \<open>cwd\<close> \<^verbatim>\<open>/proj/sub\<close>, \<^verbatim>\<open>dist/**\<close> becomes \<^verbatim>\<open>sub/dist/**\<close> and
  \<^verbatim>\<open>!keep.js\<close> becomes \<^verbatim>\<open>!sub/keep.js\<close>.
\<close>

theorem cli_ignore_patterns_rebased:
  assumes "calculateConfigArray_pushed w cfp bp opts s = (Inr configs, s')"
    and "ignorePatterns opts = Some patterns" and "patterns \<noteq> []"
  shows "(bp = cwd opts \<longrightarrow>
            suffix (IgnoresLiteral patterns # overrideLayers opts) (elements configs)) \<and>
         (bp \<noteq> cwd opts \<longrightarrow>
            suffix
              (IgnoresLiteral
                 (map (\<lambda>pattern. patternMarker pattern @
                         posix_join [path_relative (process_cwd s) bp (cwd opts), patternBody pattern])
                    patterns) #
               overrideLayers opts)
              (elements configs)) \<and>
         (bp \<noteq> cwd opts \<and> list_all (\<lambda>pattern. plainPattern (patternBody pattern)) patterns \<longrightarrow>
            suffix
              (IgnoresLiteral
                 (map (\<lambda>pattern. patternMarker pattern @
                         (if path_relative (process_cwd s) bp (cwd opts) = [] then patternBody pattern
                          else path_relative (process_cwd s) bp (cwd opts) @ ''/'' @ patternBody pattern))
                    patterns) #
               overrideLayers opts)
              (elements configs)) \<and>
         relativeIgnorePatterns (process_cwd s) ''/proj'' ''/proj/sub'' [''dist/**'', ''!keep.js''] =
           [''sub/dist/**'', ''!sub/keep.js'']"
proof -
  note layer = pushed_ignore_layer [OF assms]
  have A: "bp = cwd opts \<longrightarrow>
            suffix (IgnoresLiteral patterns # overrideLayers opts) (elements configs)"
    using layer by (auto simp: relativeIgnorePatterns_def)
  have B: "bp \<noteq> cwd opts \<longrightarrow>
            suffix
              (IgnoresLiteral
                 (map (\<lambda>pattern. patternMarker pattern @
                         posix_join [path_relative (process_cwd s) bp (cwd opts), patternBody pattern])
                    patterns) #
               overrideLayers opts)
              (elements configs)"
    using layer by (auto simp: relativeIgnorePatterns_joined)
  have C: "bp \<noteq> cwd opts \<and> list_all (\<lambda>pattern. plainPattern (patternBody pattern)) patterns \<longrightarrow>
            suffix
              (IgnoresLiteral
                 (map (\<lambda>pattern. patternMarker pattern @
                         (if path_relative (process_cwd s) bp (cwd opts) = [] then patternBody pattern
                          else path_relative (process_cwd s) bp (cwd opts) @ ''/'' @ patternBody pattern))
                    patterns) #
               overrideLayers opts)
              (elements configs)"
  proof
    assume h: "bp \<noteq> cwd opts \<and> list_all (\<lambda>pattern. plainPattern (patternBody pattern)) patterns"
    from relativeIgnorePatterns_plain [of bp "cwd opts" patterns "process_cwd s"] h layer
    show "suffix
              (IgnoresLiteral
                 (map (\<lambda>pattern. patternMarker pattern @
                         (if path_relative (process_cwd s) bp (cwd opts) = [] then patternBody pattern
                          else path_relative (process_cwd s) bp (cwd opts) @ ''/'' @ patternBody pattern))
                    patterns) #
               overrideLayers opts)
              (elements configs)"
      by simp
  qed
  from A B C rebase_example [of "process_cwd s"] show ?thesis by (intro conjI)
qed

text \<open>
  The statement for the patterns \<^verbatim>\<open>dist/**\<close> and \<^verbatim>\<open>!keep.js\<close> with \<open>cwd\<close>
  \<^verbatim>\<open>/proj/sub\<close>: once with base path \<^verbatim>\<open>/proj\<close>, once with base path
  \<^verbatim>\<open>/proj/sub\<close>.
\<close>

theorem cli_ignore_patterns_rebased_witness:
  "suffix [IgnoresLiteral [''sub/dist/**'', ''!sub/keep.js''], Opaque 9]
     [Opaque 0, Opaque 3, IgnoresLiteral [''sub/dist/**'', ''!sub/keep.js''], Opaque 9] \<and>
   suffix [IgnoresLiteral [''dist/**'', ''!keep.js''], Opaque 9]
     [Opaque 0, Opaque 3, IgnoresLiteral [''dist/**'', ''!keep.js''], Opaque 9]"
proof -
  have ps: "[''dist/**'', ''!keep.js''] \<noteq> []" by simp
  have differ: "''/proj'' \<noteq> cwd sub_options" and same: "''/proj/sub'' = cwd sub_options"
    by (simp_all add: sub_options_simps)
  note rebased = cli_ignore_patterns_rebased
    [OF pair_from_fst [OF pushed_example_rebased] sub_options_simps(2) ps]
  note unchanged = cli_ignore_patterns_rebased
    [OF pair_from_fst [OF pushed_example_unchanged] sub_options_simps(2) ps]
  from rebased [THEN conjunct2, THEN conjunct1, rule_format, OF differ]
  have A: "suffix [IgnoresLiteral [''sub/dist/**'', ''!sub/keep.js''], Opaque 9]
     [Opaque 0, Opaque 3, IgnoresLiteral [''sub/dist/**'', ''!sub/keep.js''], Opaque 9]"
    by (simp only: joined_patterns_example sub_options_simps flat_config_array.select_convs)
  from rebased [THEN conjunct2, THEN conjunct2, THEN conjunct1, rule_format,
      OF conjI [OF differ plain_patterns_example]]
  have A': "suffix [IgnoresLiteral [''sub/dist/**'', ''!sub/keep.js''], Opaque 9]
     [Opaque 0, Opaque 3, IgnoresLiteral [''sub/dist/**'', ''!sub/keep.js''], Opaque 9]"
    by (simp only: literal_patterns_example sub_options_simps flat_config_array.select_convs)
  from unchanged [THEN conjunct1, rule_format, OF same]
  have B: "suffix [IgnoresLiteral [''dist/**'', ''!keep.js''], Opaque 9]
     [Opaque 0, Opaque 3, IgnoresLiteral [''dist/**'', ''!keep.js''], Opaque 9]"
    by (simp only: sub_options_simps flat_config_array.select_convs)
  from A A' B show ?thesis by (intro conjI)
qed

text \<open>
  A pattern that is not plain is not prefixed: the join normalizes. With base path
  \<^verbatim>\<open>/proj\<close> and \<open>cwd\<close> \<^verbatim>\<open>/proj/sub\<close> the relative path is \<^verbatim>\<open>sub\<close>, and
  \<^verbatim>\<open>../up\<close> becomes \<^verbatim>\<open>up\<close>, \<^verbatim>\<open>./x\<close> becomes \<^verbatim>\<open>sub/x\<close>, the empty
  pattern becomes \<^verbatim>\<open>sub\<close> and \<^verbatim>\<open>/abs\<close> becomes \<^verbatim>\<open>sub/abs\<close>.
\<close>

theorem normalizing_join_counterexample:
  "path_relative ''/'' ''/proj'' ''/proj/sub'' = ''sub'' \<and>
   relativeIgnorePatterns ''/'' ''/proj'' ''/proj/sub'' [''../up'', ''./x'', [], ''/abs''] =
     [''up'', ''sub/x'', ''sub'', ''sub/abs''] \<and>
   \<not> prefix ''sub/'' ''up'' \<and>
   ''sub/x'' \<noteq> ''sub/./x'' \<and>
   ''sub'' \<noteq> ''sub/'' \<and>
   ''sub/abs'' \<noteq> ''sub//abs'' \<and>
   fst (calculateConfigArray_pushed world_with_config None ''/proj'' odd_options
          (new_ConfigLoader example_process)) =
     Inr \<lparr>identity = 0, array_basePath = ''/proj'', shouldIgnore = True,
          elements = [Opaque 0, Opaque 3,
                      IgnoresLiteral [''up'', ''sub/x'', ''sub'', ''sub/abs''], Opaque 9],
          normalized = False\<rparr>"
  by code_simp

section \<open>One build for directories that share a source file\<close>

lemma first_load_example:
  "fst (loadConfigArrayForDirectory example_options world_with_config ''/a''
          (new_ConfigLoader example_process)) = Inr example_array"
  by code_simp






section \<open>Loading the same directory twice\<close>

text \<open>
  \<^bold>\<open>C4\<close>. When \<^verbatim>\<open>loadConfigArrayForDirectory(D)\<close> has returned an array, a second
  call for \<open>D\<close> on the state the first one left returns the same array and leaves the
  state as it is: nothing is added to the effects, so no module is imported again. This
  holds in whatever world the second call is made, also one where the modification time
  of the source file has changed: the loader does not look at the file again.
\<close>

theorem load_twice_same_result:
  assumes "loadConfigArrayForDirectory opts w1 D s = (Inr a, s1)"
  shows "loadConfigArrayForDirectory opts w2 D s1 = (Inr a, s1) \<and>
         effects (snd (loadConfigArrayForDirectory opts w2 D s1)) = effects s1"
proof -
  from load_success [OF assms] obtain loc where
    loc: "configFilePaths s1 (path_resolve (process_cwd s) [cwd opts, D]) = Some loc"
    and arr: "configArrays s1 (configFilePath loc) = Some a"
    and cwd: "process_cwd s1 = process_cwd s" and D: "D \<noteq> []"
    by blast
  from loc cwd have "locateConfigFileToUse opts w2 (path_resolve (process_cwd s1) [cwd opts, D]) s1 = (Inr loc, s1)"
    by (simp add: locate_cached)
  from load_via_locate [OF D this] arr show ?thesis
    by (simp add: build_cached)
qed

text \<open>
  The statement for \<^verbatim>\<open>/a\<close>, with the config file edited between the two calls.
\<close>

theorem load_twice_same_result_witness:
  "fst (loadConfigArrayForDirectory example_options world_config_edited ''/a''
          (snd (loadConfigArrayForDirectory example_options world_with_config ''/a''
                  (new_ConfigLoader example_process)))) = Inr example_array \<and>
   effects (snd (loadConfigArrayForDirectory example_options world_config_edited ''/a''
          (snd (loadConfigArrayForDirectory example_options world_with_config ''/a''
                  (new_ConfigLoader example_process))))) =
   effects (snd (loadConfigArrayForDirectory example_options world_with_config ''/a''
                  (new_ConfigLoader example_process)))"
  using load_twice_same_result [OF pair_from_fst [OF first_load_example], of world_config_edited]
  by simp

section \<open>An override path\<close>

lemma override_options_simps:
  "overrideConfigFilePath override_options = OverridePath ''my.config.js''"
  "path_resolve (process_cwd example_process) [''/a/b'', ''my.config.js''] = ''/a/b/my.config.js''"
  "path_resolve (process_cwd example_process) [''/a/b'', ''/elsewhere''] = ''/elsewhere''"
  "cwd override_options = ''/a/b''"
  by code_simp+

text \<open>
  \<^bold>\<open>C5\<close>. With \<^verbatim>\<open>configFilePath\<close> set to a string \<open>P\<close>, after any history of calls
  on a new loader and in any world, \<^verbatim>\<open>findConfigFileForDirectory(D)\<close> returns
  \<^verbatim>\<open>path.resolve(cwd, P)\<close> for every non-empty \<open>D\<close>, and the location it leaves in the
  cache for \<open>D\<close> has base path \<open>cwd\<close>.
\<close>

theorem override_path_wins:
  assumes "overrideConfigFilePath opts = OverridePath P" and "D \<noteq> []"
  shows "fst (findConfigFileForDirectory opts w D (run opts history (new_ConfigLoader p))) =
           Inr (Some (path_resolve (process_cwd p) [cwd opts, P])) \<and>
         configFilePaths (snd (findConfigFileForDirectory opts w D (run opts history (new_ConfigLoader p))))
           (path_resolve (process_cwd p) [cwd opts, D]) =
           Some \<lparr>configFilePath = Some (path_resolve (process_cwd p) [cwd opts, P]), basePath = cwd opts\<rparr>"
proof -
  let ?s = "run opts history (new_ConfigLoader p)"
  let ?d = "path_resolve (process_cwd p) [cwd opts, D]"
  let ?loc = "\<lparr>configFilePath = Some (path_resolve (process_cwd p) [cwd opts, P]), basePath = cwd opts\<rparr>"
  have cwd: "process_cwd ?s = process_cwd p" by (simp add: run_cwd new_loader_simps)
  have "\<And>w'. determineConfigFile opts w' (process_cwd p) ?d = Inr ?loc"
    using assms(1) by (rule determine_override)
  from locate_history [OF this, of w history] 
  obtain s' where "locateConfigFileToUse opts w ?d ?s = (Inr ?loc, s')" and "configFilePaths s' ?d = Some ?loc"
    by (metis prod.collapse)
  with find_via_locate [OF assms(2), of opts w ?s "Inr ?loc" s'] cwd show ?thesis by simp
qed

text \<open>
  The statement for \<^verbatim>\<open>my.config.js\<close> and the directory \<^verbatim>\<open>/elsewhere\<close>, in a world
  where that directory has no config file.
\<close>

theorem override_path_wins_witness:
  "fst (findConfigFileForDirectory override_options world_without_config ''/elsewhere''
          (run override_options [(world_with_config, LoadConfigArrayForDirectory ''/a'')]
             (new_ConfigLoader example_process))) = Inr (Some ''/a/b/my.config.js'') \<and>
   configFilePaths
     (snd (findConfigFileForDirectory override_options world_without_config ''/elsewhere''
          (run override_options [(world_with_config, LoadConfigArrayForDirectory ''/a'')]
             (new_ConfigLoader example_process)))) ''/elsewhere'' =
     Some \<lparr>configFilePath = Some ''/a/b/my.config.js'', basePath = ''/a/b''\<rparr>"
proof -
  have D: "''/elsewhere'' \<noteq> []" by simp
  from override_path_wins [OF override_options_simps(1) D, of world_without_config
      "[(world_with_config, LoadConfigArrayForDirectory ''/a'')]" example_process]
  show ?thesis by (simp add: override_options_simps)
qed

section \<open>Config files disabled\<close>

lemma disabled_options_simps:
  "overrideConfigFilePath disabled_options = Disabled"
  "path_resolve (process_cwd example_process) [''/a/b'', ''/a/b/c''] = ''/a/b/c''"
  "cwd disabled_options = ''/a/b''"
  "ignoreEnabled disabled_options = True"
  "baseLayers disabled_options @ defaultLayers disabled_options @
     cliIgnoreLayers (process_cwd (new_ConfigLoader example_process)) ''/a/b'' disabled_options @
     overrideLayers disabled_options =
   [Opaque 0, Opaque 3, IgnoresLiteral [''dist/**'', ''!keep.js''], Opaque 9]"
  "constructed (new_ConfigLoader example_process) = 0"
  "effects (new_ConfigLoader example_process) = []"
  by code_simp+

text \<open>
  \<^bold>\<open>C6\<close>. With \<^verbatim>\<open>configFilePath: false\<close>, after any history of calls on a new loader
  and in any world, \<^verbatim>\<open>findConfigFileForDirectory(D)\<close> returns \<^verbatim>\<open>undefined\<close> for
  every non-empty \<open>D\<close> and the location it leaves in the cache has no source path and
  base path \<open>cwd\<close>. The sequence built for that location holds the base, default, ignore
  and override layers only, and building it imports no module.
\<close>

theorem disabled_means_no_source:
  assumes "overrideConfigFilePath opts = Disabled" and "D \<noteq> []"
  shows "fst (findConfigFileForDirectory opts w D (run opts history (new_ConfigLoader p))) = Inr None \<and>
         configFilePaths (snd (findConfigFileForDirectory opts w D (run opts history (new_ConfigLoader p))))
           (path_resolve (process_cwd p) [cwd opts, D]) =
           Some \<lparr>configFilePath = None, basePath = cwd opts\<rparr> \<and>
         fst (calculateConfigArray_pushed w' None (cwd opts) opts t) =
           Inr \<lparr>identity = constructed t, array_basePath = cwd opts, shouldIgnore = ignoreEnabled opts,
                elements = baseLayers opts @ defaultLayers opts @
                           cliIgnoreLayers (process_cwd t) (cwd opts) opts @ overrideLayers opts,
                normalized = False\<rparr> \<and>
         effects (snd (calculateConfigArray w' None (cwd opts) opts t)) = effects t"
proof -
  let ?s = "run opts history (new_ConfigLoader p)"
  let ?d = "path_resolve (process_cwd p) [cwd opts, D]"
  let ?loc = "\<lparr>configFilePath = None, basePath = cwd opts\<rparr>"
  have cwd: "process_cwd ?s = process_cwd p" by (simp add: run_cwd new_loader_simps)
  have "\<And>w'. determineConfigFile opts w' (process_cwd p) ?d = Inr ?loc"
    using assms(1) by (rule determine_disabled)
  from locate_history [OF this, of w history] 
  obtain s' where "locateConfigFileToUse opts w ?d ?s = (Inr ?loc, s')" and "configFilePaths s' ?d = Some ?loc"
    by (metis prod.collapse)
  with find_via_locate [OF assms(2), of opts w ?s "Inr ?loc" s'] cwd
  have A: "fst (findConfigFileForDirectory opts w D ?s) = Inr None"
    and B: "configFilePaths (snd (findConfigFileForDirectory opts w D ?s)) ?d = Some ?loc"
    by simp_all
  have C: "fst (calculateConfigArray_pushed w' None (cwd opts) opts t) =
           Inr \<lparr>identity = constructed t, array_basePath = cwd opts, shouldIgnore = ignoreEnabled opts,
                elements = baseLayers opts @ defaultLayers opts @
                           cliIgnoreLayers (process_cwd t) (cwd opts) opts @ overrideLayers opts,
                normalized = False\<rparr>"
    by (simp add: pushed_value layerSequence_def fileLayers_def)
  have E: "effects (snd (calculateConfigArray w' None (cwd opts) opts t)) = effects t"
    by (simp add: calculateConfigArray_def calculateConfigArray_pushed_def new_FlatConfigArray_def
        Let_def split: sum.splits prod.splits)
  from A B C E show ?thesis by blast
qed

text \<open>
The statement for the directory \<^verbatim>\<open>/a/b/c\<close> on a new loader.
\<close>

theorem disabled_means_no_source_witness:
  "fst (findConfigFileForDirectory disabled_options world_with_config ''/a/b/c''
          (run disabled_options [] (new_ConfigLoader example_process))) = Inr None \<and>
   configFilePaths
     (snd (findConfigFileForDirectory disabled_options world_with_config ''/a/b/c''
          (run disabled_options [] (new_ConfigLoader example_process)))) ''/a/b/c'' =
     Some \<lparr>configFilePath = None, basePath = ''/a/b''\<rparr> \<and>
   fst (calculateConfigArray_pushed world_with_config None ''/a/b'' disabled_options
          (new_ConfigLoader example_process)) =
     Inr \<lparr>identity = 0, array_basePath = ''/a/b'', shouldIgnore = True,
          elements = [Opaque 0, Opaque 3, IgnoresLiteral [''dist/**'', ''!keep.js''], Opaque 9],
          normalized = False\<rparr> \<and>
   effects (snd (calculateConfigArray world_with_config None ''/a/b'' disabled_options
                   (new_ConfigLoader example_process))) = []"
proof -
  have D: "''/a/b/c'' \<noteq> []" by simp
  from disabled_means_no_source [OF disabled_options_simps(1) D, of world_with_config "[]"
      example_process world_with_config "new_ConfigLoader example_process"]
  show ?thesis by (simp add: disabled_options_simps)
qed

section \<open>No config file anywhere above\<close>

lemma search_example:
  "overrideConfigFilePath example_options = Unset"
  "noCandidate world_without_config ''/'' ''/a/b/c''"
  "process_cwd (new_ConfigLoader example_process) = ''/''"
  "configFilePaths (new_ConfigLoader example_process) ''/a/b/c'' = None"
  "path_resolve ''/'' [cwd example_options, ''/a/b/c''] = ''/a/b/c''"
  "process_cwd example_process = ''/''"
  by code_simp+

text \<open>
  \<^bold>\<open>C7\<close>. With \<^verbatim>\<open>configFilePath\<close> absent, whenever none of the candidate file names
  is a file in the starting directory or in any of its ancestors, the search of lines 264
  to 279 ends in \<open>ConfigFileMissing\<close>. So does the location resolution of every loader
  that has no location for the directory in its cache (the search is made exactly then:
  a cached location is returned before any search, \<open>locate_cached\<close>), and with it
  \<^verbatim>\<open>findConfigFileForDirectory\<close> and \<^verbatim>\<open>loadConfigArrayForDirectory\<close>, which leave
  the state as it was. In particular it does so after any history of calls on a new loader
  during which the directory never had a candidate above it.
\<close>

theorem search_exhausted:
  assumes "overrideConfigFilePath opts = Unset" and "noCandidate w pcwd d"
  shows "determineConfigFile opts w pcwd d = Inl ConfigFileMissing \<and>
         (process_cwd s = pcwd \<and> configFilePaths s d = None \<longrightarrow>
            locateConfigFileToUse opts w d s = (Inl ConfigFileMissing, s)) \<and>
         (process_cwd s = pcwd \<and> configFilePaths s d = None \<and> D \<noteq> [] \<and>
          path_resolve pcwd [cwd opts, D] = d \<longrightarrow>
            findConfigFileForDirectory opts w D s = (Inl ConfigFileMissing, s) \<and>
            loadConfigArrayForDirectory opts w D s = (Inl ConfigFileMissing, s)) \<and>
         (process_cwd p = pcwd \<and> (\<forall>(w', c) \<in> set history. noCandidate w' pcwd d) \<longrightarrow>
            fst (locateConfigFileToUse opts w d (run opts history (new_ConfigLoader p))) =
              Inl ConfigFileMissing)"
proof -
  have missing: "determineConfigFile opts w pcwd d = Inl ConfigFileMissing"
    using assms by (rule determine_missing)
  have fresh: "locateConfigFileToUse opts w d t = (Inl ConfigFileMissing, t)"
    if "process_cwd t = pcwd" and "configFilePaths t d = None" for t :: "'a loader_scheme"
    using that missing by (simp add: locate_fresh)
  have calls: "findConfigFileForDirectory opts w D s = (Inl ConfigFileMissing, s) \<and>
               loadConfigArrayForDirectory opts w D s = (Inl ConfigFileMissing, s)"
    if "process_cwd s = pcwd" and "configFilePaths s d = None" and "D \<noteq> []"
      and "path_resolve pcwd [cwd opts, D] = d"
  proof -
    from that fresh [of s]
    have L: "locateConfigFileToUse opts w (path_resolve (process_cwd s) [cwd opts, D]) s =
               (Inl ConfigFileMissing, s)"
      by simp
    from find_via_locate [OF that(3) L] load_via_locate [OF that(3) L] show ?thesis by simp
  qed
  have reached: "fst (locateConfigFileToUse opts w d (run opts history (new_ConfigLoader p))) =
                   Inl ConfigFileMissing"
    if "process_cwd p = pcwd" and "\<forall>(w', c) \<in> set history. noCandidate w' pcwd d"
  proof -
    from that never_resolved [OF assms(1), of history p d]
    have "configFilePaths (run opts history (new_ConfigLoader p)) d = None" by simp
    moreover from that have "process_cwd (run opts history (new_ConfigLoader p)) = pcwd"
      by (simp add: run_cwd new_loader_simps)
    ultimately show ?thesis using missing by (simp add: locate_fresh)
  qed
  from missing fresh [of s] calls reached show ?thesis by blast
qed

text \<open>
  The statement for \<^verbatim>\<open>/a/b/c\<close> in a world whose only config file is
  \<^verbatim>\<open>/x/eslint.config.js\<close>: on a new loader, and after two calls that failed.
\<close>

theorem search_exhausted_witness:
  "determineConfigFile example_options world_without_config ''/'' ''/a/b/c'' = Inl ConfigFileMissing \<and>
   locateConfigFileToUse example_options world_without_config ''/a/b/c''
     (new_ConfigLoader example_process) =
     (Inl ConfigFileMissing, new_ConfigLoader example_process) \<and>
   findConfigFileForDirectory example_options world_without_config ''/a/b/c''
     (new_ConfigLoader example_process) =
     (Inl ConfigFileMissing, new_ConfigLoader example_process) \<and>
   loadConfigArrayForDirectory example_options world_without_config ''/a/b/c''
     (new_ConfigLoader example_process) =
     (Inl ConfigFileMissing, new_ConfigLoader example_process) \<and>
   fst (locateConfigFileToUse example_options world_without_config ''/a/b/c''
          (run example_options
             [(world_without_config, FindConfigFileForDirectory ''/a/b/c''),
              (world_without_config, LoadConfigArrayForFile ''/a/b/c/index.js'')]
             (new_ConfigLoader example_process))) = Inl ConfigFileMissing"
proof -
  note all = search_exhausted [OF search_example(1) search_example(2)]
  have D: "''/a/b/c'' \<noteq> []" by simp
  have history:
    "\<forall>(w', c) \<in> set [(world_without_config, FindConfigFileForDirectory ''/a/b/c''),
                       (world_without_config, LoadConfigArrayForFile ''/a/b/c/index.js'')].
       noCandidate w' ''/'' ''/a/b/c''"
    by (simp add: search_example(2))
  from all [THEN conjunct1]
    all [THEN conjunct2, THEN conjunct1, rule_format,
         OF conjI [OF search_example(3) search_example(4)]]
    all [THEN conjunct2, THEN conjunct2, THEN conjunct1, rule_format,
         OF conjI [OF search_example(3) conjI [OF search_example(4) conjI [OF D search_example(5)]]]]
    all [THEN conjunct2, THEN conjunct2, THEN conjunct2, rule_format,
         OF conjI [OF search_example(6) history]]
  show ?thesis by (intro conjI) simp_all
qed

section \<open>The synchronous accessor before any resolution\<close>

lemma resolved_example:
  "resolvesLocation example_options (process_cwd example_process) world_with_config
     (FindConfigFileForDirectory ''/a'')
     (path_resolve (process_cwd example_process) [cwd example_options, ''/a''])"
  by code_simp

text \<open>
  \<^bold>\<open>C8\<close>, amended. After any history of calls on a new loader,
  \<^verbatim>\<open>getCachedConfigArrayForDirectory(D)\<close> with a non-empty \<open>D\<close> fails with
  \<open>NotFound\<close> if and only if no earlier \<^verbatim>\<open>find...\<close> or \<^verbatim>\<open>load...\<close> call of the
  history was a call for exactly the directory \<^verbatim>\<open>path.resolve(cwd, D)\<close> whose location
  could be determined (an override path is set, config files are disabled, or the upward
  search found a file). Calls for other directories, ancestors included, and calls whose
  resolution failed do not count.
\<close>

theorem not_found_iff_never_resolved:
  assumes "D \<noteq> []"
  shows "getCachedConfigArrayForDirectory opts D (run opts history (new_ConfigLoader p)) =
           Inl (NotFound D) \<longleftrightarrow>
         \<not> (\<exists>(w, c) \<in> set history.
               resolvesLocation opts (process_cwd p) w c (path_resolve (process_cwd p) [cwd opts, D]))"
proof -
  let ?s = "run opts history (new_ConfigLoader p)"
  let ?d = "path_resolve (process_cwd p) [cwd opts, D]"
  have cwd: "process_cwd ?s = process_cwd p" by (simp add: run_cwd new_loader_simps)
  have "getCachedConfigArrayForDirectory opts D ?s = Inl (NotFound D) \<longleftrightarrow> ?d \<notin> dom (configFilePaths ?s)"
    using assms cwd
    by (auto simp: getCachedConfigArrayForDirectory_def assertValidFilePath_def split: option.splits)
  also have "\<dots> \<longleftrightarrow> \<not> (\<exists>(w, c) \<in> set history. resolvesLocation opts (process_cwd p) w c ?d)"
    by (simp add: run_dom new_loader_simps)
  finally show ?thesis .
qed

text \<open>
  The statement for \<^verbatim>\<open>/a\<close>: after a successful \<^verbatim>\<open>findConfigFileForDirectory\<close>
  call for it, and on a new loader.
\<close>

theorem not_found_iff_never_resolved_witness:
  "getCachedConfigArrayForDirectory example_options ''/a''
     (run example_options [(world_with_config, FindConfigFileForDirectory ''/a'')]
        (new_ConfigLoader example_process)) \<noteq> Inl (NotFound ''/a'') \<and>
   getCachedConfigArrayForDirectory example_options ''/a''
     (run example_options [] (new_ConfigLoader example_process)) = Inl (NotFound ''/a'')"
proof -
  have D: "''/a'' \<noteq> []" by simp
  from not_found_iff_never_resolved [OF D, of example_options
      "[(world_with_config, FindConfigFileForDirectory ''/a'')]" example_process] resolved_example
  have A: "getCachedConfigArrayForDirectory example_options ''/a''
     (run example_options [(world_with_config, FindConfigFileForDirectory ''/a'')]
        (new_ConfigLoader example_process)) \<noteq> Inl (NotFound ''/a'')"
    by simp
  from not_found_iff_never_resolved [OF D, of example_options "[]" example_process]
  have B: "getCachedConfigArrayForDirectory example_options ''/a''
     (run example_options [] (new_ConfigLoader example_process)) = Inl (NotFound ''/a'')"
    by simp
  from A B show ?thesis by (intro conjI)
qed

text \<open>
  A call for an ancestor that shares the location does not help, and neither does a
  call for the directory itself that failed. \<^verbatim>\<open>/a\<close> and \<^verbatim>\<open>/a/b\<close> both resolve to
  \<^verbatim>\<open>/a/eslint.config.js\<close>; after \<^verbatim>\<open>loadConfigArrayForDirectory("/a")\<close> has
  returned, the accessor still fails with \<open>NotFound\<close> for \<^verbatim>\<open>/a/b\<close>. And after
  \<^verbatim>\<open>loadConfigArrayForDirectory("/a")\<close> has failed with \<open>ConfigFileMissing\<close>, the
  accessor fails with \<open>NotFound\<close> for \<^verbatim>\<open>/a\<close>.
\<close>

theorem ancestor_call_counterexample:
  "fst (loadConfigArrayForDirectory example_options world_with_config ''/a''
          (new_ConfigLoader example_process)) = Inr example_array \<and>
   fst (findConfigFileForDirectory example_options world_with_config ''/a''
          (new_ConfigLoader example_process)) = Inr (Some ''/a/eslint.config.js'') \<and>
   fst (findConfigFileForDirectory example_options world_with_config ''/a/b''
          (new_ConfigLoader example_process)) = Inr (Some ''/a/eslint.config.js'') \<and>
   getCachedConfigArrayForDirectory example_options ''/a/b''
     (run example_options [(world_with_config, LoadConfigArrayForDirectory ''/a'')]
        (new_ConfigLoader example_process)) = Inl (NotFound ''/a/b'') \<and>
   fst (loadConfigArrayForDirectory example_options world_without_config ''/a''
          (new_ConfigLoader example_process)) = Inl ConfigFileMissing \<and>
   getCachedConfigArrayForDirectory example_options ''/a''
     (run example_options [(world_without_config, LoadConfigArrayForDirectory ''/a'')]
        (new_ConfigLoader example_process)) = Inl (NotFound ''/a'')"
  by code_simp

section \<open>Failures are not cached\<close>

lemma failure_examples:
  "fst (locateConfigFileToUse example_options world_without_config ''/a''
          (new_ConfigLoader example_process)) = Inl ConfigFileMissing"
  "determineConfigFile example_options world_with_config
     (process_cwd (snd (locateConfigFileToUse example_options world_without_config ''/a''
                          (new_ConfigLoader example_process)))) ''/a'' =
     Inr \<lparr>configFilePath = Some ''/a/eslint.config.js'', basePath = ''/a''\<rparr>"
  "fst (ConfigLoader_calculateConfigArray example_options world_without_config
          (Some ''/a/eslint.config.js'') ''/a'' (new_ConfigLoader example_process)) =
     Inl (Passthrough ''ENOENT'')"
  "fst (calculateConfigArray world_with_config (Some ''/a/eslint.config.js'') ''/a'' example_options
          (snd (ConfigLoader_calculateConfigArray example_options world_without_config
                  (Some ''/a/eslint.config.js'') ''/a'' (new_ConfigLoader example_process)))) =
     Inr (example_array\<lparr>identity := 1\<rparr>)"
  "fst (loadConfigArrayForDirectory example_options world_config_unreadable ''/a''
          (new_ConfigLoader example_process)) = Inl (Passthrough ''EACCES'')"
  by code_simp+

text \<open>
  \<^bold>\<open>C9\<close>. A location resolution that fails leaves both caches as they were, with no
  entry for the directory; a build that fails leaves both caches as they were, with no
  entry for the source path. In both cases a later attempt for the same key does the work
  again and succeeds when the work does. A failing \<^verbatim>\<open>findConfigFileForDirectory\<close>
  changes neither cache; a failing \<^verbatim>\<open>loadConfigArrayForDirectory\<close> leaves the cache
  of arrays as it was and keeps every location that was cached.
\<close>

theorem failure_leaves_caches:
  "(locateConfigFileToUse opts w d s = (Inl e, s') \<longrightarrow>
      configFilePaths s' = configFilePaths s \<and> configArrays s' = configArrays s \<and>
      configFilePaths s' d = None \<and>
      (determineConfigFile opts w2 (process_cwd s') d = Inr loc \<longrightarrow>
         fst (locateConfigFileToUse opts w2 d s') = Inr loc)) \<and>
   (ConfigLoader_calculateConfigArray opts w cfp bp s = (Inl e, s') \<longrightarrow>
      configFilePaths s' = configFilePaths s \<and> configArrays s' = configArrays s \<and>
      configArrays s' cfp = None \<and>
      (fst (calculateConfigArray w2 cfp bp opts s') = Inr a \<longrightarrow>
         fst (ConfigLoader_calculateConfigArray opts w2 cfp bp s') = Inr a)) \<and>
   (findConfigFileForDirectory opts w D s = (Inl e, s') \<longrightarrow>
      configFilePaths s' = configFilePaths s \<and> configArrays s' = configArrays s) \<and>
   (loadConfigArrayForDirectory opts w D s = (Inl e, s') \<longrightarrow>
      configArrays s' = configArrays s \<and>
      (\<forall>k cached. configFilePaths s k = Some cached \<longrightarrow> configFilePaths s' k = Some cached))"
proof (intro conjI impI)
  assume L: "locateConfigFileToUse opts w d s = (Inl e, s')"
  from locate_failure [OF L]
  show "configFilePaths s' = configFilePaths s" "configArrays s' = configArrays s"
    "configFilePaths s' d = None"
    by simp_all
  assume "determineConfigFile opts w2 (process_cwd s') d = Inr loc"
  with locate_failure [OF L] show "fst (locateConfigFileToUse opts w2 d s') = Inr loc"
    by (simp add: locate_fresh)
next
  assume B: "ConfigLoader_calculateConfigArray opts w cfp bp s = (Inl e, s')"
  from build_failure [OF B]
  show "configFilePaths s' = configFilePaths s" "configArrays s' = configArrays s"
    "configArrays s' cfp = None"
    by simp_all
  assume "fst (calculateConfigArray w2 cfp bp opts s') = Inr a"
  with build_failure [OF B] show "fst (ConfigLoader_calculateConfigArray opts w2 cfp bp s') = Inr a"
    by (auto simp: ConfigLoader_calculateConfigArray_def split: prod.splits sum.splits)
next
  assume F: "findConfigFileForDirectory opts w D s = (Inl e, s')"
  then show "configFilePaths s' = configFilePaths s" "configArrays s' = configArrays s"
    by (auto simp: findConfigFileForDirectory_def assertValidFilePath_def
        split: if_splits sum.splits prod.splits dest: locate_failure)
next
  assume F: "loadConfigArrayForDirectory opts w D s = (Inl e, s')"
  then show "configArrays s' = configArrays s"
    by (auto simp: loadConfigArrayForDirectory_def assertValidFilePath_def
        split: if_splits sum.splits prod.splits dest!: locate_failure locate_success build_failure)
  from F show "\<forall>k cached. configFilePaths s k = Some cached \<longrightarrow> configFilePaths s' k = Some cached"
    by (blast intro: load_keeps_locations)
qed

text \<open>
  The statement on a new loader: a search that finds nothing and then finds
  \<^verbatim>\<open>/a/eslint.config.js\<close>; a build that cannot read the file and then can; a load
  whose build fails.
\<close>

theorem failure_leaves_caches_witness:
  "configFilePaths (snd (locateConfigFileToUse example_options world_without_config ''/a''
                           (new_ConfigLoader example_process))) ''/a'' = None \<and>
   fst (locateConfigFileToUse example_options world_with_config ''/a''
          (snd (locateConfigFileToUse example_options world_without_config ''/a''
                  (new_ConfigLoader example_process)))) =
     Inr \<lparr>configFilePath = Some ''/a/eslint.config.js'', basePath = ''/a''\<rparr> \<and>
   configArrays (snd (ConfigLoader_calculateConfigArray example_options world_without_config
                        (Some ''/a/eslint.config.js'') ''/a'' (new_ConfigLoader example_process)))
     (Some ''/a/eslint.config.js'') = None \<and>
   fst (ConfigLoader_calculateConfigArray example_options world_with_config
          (Some ''/a/eslint.config.js'') ''/a''
          (snd (ConfigLoader_calculateConfigArray example_options world_without_config
                  (Some ''/a/eslint.config.js'') ''/a'' (new_ConfigLoader example_process)))) =
     Inr (example_array\<lparr>identity := 1\<rparr>) \<and>
   configArrays (snd (loadConfigArrayForDirectory example_options world_config_unreadable ''/a''
                        (new_ConfigLoader example_process))) =
     configArrays (new_ConfigLoader example_process)"
proof -
  note located = failure_leaves_caches
    [THEN conjunct1, rule_format, OF pair_from_fst [OF failure_examples(1)]]
  note built = failure_leaves_caches
    [THEN conjunct2, THEN conjunct1, rule_format, OF pair_from_fst [OF failure_examples(3)]]
  note loaded = failure_leaves_caches
    [THEN conjunct2, THEN conjunct2, THEN conjunct2, rule_format,
     OF pair_from_fst [OF failure_examples(5)]]
  from located [THEN conjunct2, THEN conjunct2, THEN conjunct1]
    located [THEN conjunct2, THEN conjunct2, THEN conjunct2, rule_format, OF failure_examples(2)]
    built [THEN conjunct2, THEN conjunct2, THEN conjunct1]
    built [THEN conjunct2, THEN conjunct2, THEN conjunct2, rule_format, OF failure_examples(4)]
    loaded [THEN conjunct1]
  show ?thesis by (intro conjI)
qed

section \<open>Resolved but never built\<close>

lemma unbuilt_examples:
  "configFilePaths
     (snd (findConfigFileForDirectory example_options world_with_config ''/a''
             (new_ConfigLoader example_process)))
     (path_resolve
        (process_cwd (snd (findConfigFileForDirectory example_options world_with_config ''/a''
                             (new_ConfigLoader example_process))))
        [cwd example_options, ''/a'']) =
     Some \<lparr>configFilePath = Some ''/a/eslint.config.js'', basePath = ''/a''\<rparr>"
  "configArrays
     (snd (findConfigFileForDirectory example_options world_with_config ''/a''
             (new_ConfigLoader example_process)))
     (configFilePath \<lparr>configFilePath = Some ''/a/eslint.config.js'', basePath = ''/a''\<rparr>) = None"
  "legacy_configFilePath
     (snd (Legacy_findConfigFileForDirectory example_options world_with_config ''/a''
             (new_LegacyConfigLoader example_process))) =
     Some \<lparr>configFilePath = Some ''/a/eslint.config.js'', basePath = ''/a''\<rparr>"
  "legacy_configArray
     (snd (Legacy_findConfigFileForDirectory example_options world_with_config ''/a''
             (new_LegacyConfigLoader example_process))) = None"
  by code_simp+

text \<open>
  \<^bold>\<open>C10\<close>. For a non-empty \<open>D\<close>: when the location of \<open>D\<close> is in the cache of a
  \<^verbatim>\<open>ConfigLoader\<close> but there is no array for its source path,
  \<^verbatim>\<open>getCachedConfigArrayForDirectory(D)\<close> returns \<^verbatim>\<open>undefined\<close>; when a
  \<^verbatim>\<open>LegacyConfigLoader\<close> has its location but no array, its
  \<^verbatim>\<open>getCachedConfigArrayForDirectory(D)\<close> throws.
\<close>

theorem resolved_but_never_built:
  assumes "D \<noteq> []"
  shows "(configFilePaths s (path_resolve (process_cwd s) [cwd opts, D]) = Some loc \<and>
          configArrays s (configFilePath loc) = None \<longrightarrow>
            getCachedConfigArrayForDirectory opts D s = Inr None) \<and>
         (legacy_configFilePath t = Some loc' \<and> legacy_configArray t = None \<longrightarrow>
            Legacy_getCachedConfigArrayForDirectory D t = Inl (NotFound D))"
  using assms
  by (simp add: getCachedConfigArrayForDirectory_def Legacy_getCachedConfigArrayForDirectory_def
      assertValidFilePath_def)

text \<open>
  The statement for \<^verbatim>\<open>/a\<close> after one successful
  \<^verbatim>\<open>findConfigFileForDirectory("/a")\<close> on a new loader of each kind.
\<close>

theorem resolved_but_never_built_witness:
  "getCachedConfigArrayForDirectory example_options ''/a''
     (snd (findConfigFileForDirectory example_options world_with_config ''/a''
             (new_ConfigLoader example_process))) = Inr None \<and>
   Legacy_getCachedConfigArrayForDirectory ''/a''
     (snd (Legacy_findConfigFileForDirectory example_options world_with_config ''/a''
             (new_LegacyConfigLoader example_process))) = Inl (NotFound ''/a'')"
proof -
  have D: "''/a'' \<noteq> []" by simp
  note both = resolved_but_never_built [OF D]
  from both [THEN conjunct1, rule_format, OF conjI [OF unbuilt_examples(1) unbuilt_examples(2)]]
    both [THEN conjunct2, rule_format, OF conjI [OF unbuilt_examples(3) unbuilt_examples(4)]]
  show ?thesis by (intro conjI)
qed

end
